theory Spec2Isabelle
  imports Complex_Main "HOL-Library.Char_ord" "HOL-Library.List_Lexorder"
    "HOL-Library.Log_Nat"
begin

section \<open>Voice Ingest: watch, transcribe, webhook\<close>

text \<open>
  A shallow embedding of \<^verbatim>\<open>main.py\<close>. The program reads a clock, a watch
  directory, a state file and two HTTP endpoints, and it mutates the directory, the state
  file and one in-memory set. All of these are fields of an explicit \<open>world\<close> that every
  function takes and returns; the set \<open>processed\<close> is passed and returned beside it, as
  the source passes the (mutable) set object. An exception that leaves a function is the
  \<open>Inl\<close> of its result, and the world returned with it holds the mutations made before
  the raise. Log lines are not part of the model, except the start-up diagnostics of
  \<open>main\<close>.
\<close>

subsection \<open>Python values\<close>

datatype py_error =
    FileNotFoundError | OSError | AttributeError | TypeError | ValueError
  | UnicodeDecodeError | OverflowError | RecursionError

text \<open>
  What \<^verbatim>\<open>json.loads\<close> returns. An object keeps its pairs in the order of
  the text; numbers are not split into \<^verbatim>\<open>int\<close> and \<^verbatim>\<open>float\<close>.
\<close>

datatype json =
    JNull | JBool bool | JNum real | JStr string
  | JArr "json list" | JObj "(string \<times> json) list"

text \<open>
  A text file or response body, taken by what the decoder and \<^verbatim>\<open>json.loads\<close>
  make of it: bytes that do not decode, text that is not JSON, text nested deeper than
  the parser's recursion goes (\<^verbatim>\<open>json.loads\<close> raises
  \<^verbatim>\<open>RecursionError\<close>), or a JSON document.
\<close>

datatype content = Undecodable | NotJson | TooDeep | Json json

text \<open>\<^verbatim>\<open>d.get(k)\<close> on a decoded object: the last pair with the key wins.\<close>

definition obj_get :: "(string \<times> json) list \<Rightarrow> string \<Rightarrow> json option" where
  "obj_get kvs k = map_of (rev kvs) k"

text \<open>
  The elements of a Python set built from decoded JSON. \<^verbatim>\<open>True\<close> and
  \<^verbatim>\<open>False\<close> are the numbers 1 and 0 there (they compare and hash alike); lists and
  dicts are unhashable.
\<close>

datatype pykey = KNone | KNum real | KStr string

fun key_of :: "json \<Rightarrow> pykey option" where
  "key_of JNull = Some KNone"
| "key_of (JBool b) = Some (KNum (if b then 1 else 0))"
| "key_of (JNum x) = Some (KNum x)"
| "key_of (JStr s) = Some (KStr s)"
| "key_of (JArr xs) = None"
| "key_of (JObj kvs) = None"

text \<open>
  \<^verbatim>\<open>set(v)\<close>: the elements of a list, the characters of a string, the keys of a
  dict; \<^verbatim>\<open>TypeError\<close> for a value that is not iterable or an element that is not
  hashable.
\<close>

fun py_set :: "json \<Rightarrow> py_error + pykey set" where
  "py_set (JArr xs) =
     (if None \<in> set (map key_of xs) then Inl TypeError
      else Inr (set (map (the \<circ> key_of) xs)))"
| "py_set (JStr s) = Inr (set (map (\<lambda>c. KStr [c]) s))"
| "py_set (JObj kvs) = Inr (set (map (KStr \<circ> fst) kvs))"
| "py_set JNull = Inl TypeError"
| "py_set (JBool b) = Inl TypeError"
| "py_set (JNum x) = Inl TypeError"

fun is_KStr :: "pykey \<Rightarrow> bool" where
  "is_KStr (KStr s) = True"
| "is_KStr k = False"

fun is_KNum :: "pykey \<Rightarrow> bool" where
  "is_KNum (KNum x) = True"
| "is_KNum k = False"

fun un_KStr :: "pykey \<Rightarrow> string" where
  "un_KStr (KStr s) = s"
| "un_KStr k = []"

fun un_KNum :: "pykey \<Rightarrow> real" where
  "un_KNum (KNum x) = x"
| "un_KNum k = 0"

fun json_of_key :: "pykey \<Rightarrow> json" where
  "json_of_key KNone = JNull"
| "json_of_key (KNum x) = JNum x"
| "json_of_key (KStr s) = JStr s"

text \<open>
  \<^verbatim>\<open>sorted(s)\<close> of a set: strings sort among themselves (by code point) and
  numbers among themselves; any other mix of two or more elements has a pair that
  \<^verbatim>\<open><\<close> does not compare, and the sort raises \<^verbatim>\<open>TypeError\<close>.
\<close>

definition py_sorted :: "pykey set \<Rightarrow> py_error + pykey list" where
  "py_sorted s =
     (if \<forall>k\<in>s. is_KStr k then Inr (map KStr (sorted_list_of_set (un_KStr ` s)))
      else if \<forall>k\<in>s. is_KNum k then Inr (map KNum (sorted_list_of_set (un_KNum ` s)))
      else if s = {KNone} then Inr [KNone]
      else Inl TypeError)"

text \<open>
  \<^verbatim>\<open>str.isspace\<close> on the characters of the model (code points below 256), and
  \<^verbatim>\<open>str.strip()\<close>.
\<close>

definition isspace :: "char \<Rightarrow> bool" where
  "isspace c = (of_char c \<in> {9, 10, 11, 12, 13, 28, 29, 30, 31, 32, 133, 160 :: nat})"

definition strip :: "string \<Rightarrow> string" where
  "strip s = rev (dropWhile isspace (rev (dropWhile isspace s)))"

text \<open>\<^verbatim>\<open>str.lower()\<close> on the letters A to Z.\<close>

definition lower_char :: "char \<Rightarrow> char" where
  "lower_char c =
     (if 65 \<le> (of_char c :: nat) \<and> (of_char c :: nat) \<le> 90
      then char_of (of_char c + 32 :: nat) else c)"

definition lower :: "string \<Rightarrow> string" where
  "lower s = map lower_char s"

text \<open>
  \<^verbatim>\<open>Path.suffix\<close>: with \<open>i\<close> the index of the last dot of the name, the text from
  \<open>i\<close> on if \<open>0 < i < len(name) - 1\<close>, else the empty string.
\<close>

definition suffix :: "string \<Rightarrow> string" where
  "suffix name =
     (let ext = rev (takeWhile (\<lambda>c. c \<noteq> CHR ''.'') (rev name)) in
      if CHR ''.'' \<notin> set name then []
      else if length ext + 1 < length name \<and> ext \<noteq> [] then CHR ''.'' # ext
      else [])"

subsection \<open>Double precision\<close>

text \<open>
  \<^verbatim>\<open>time.time()\<close> and \<^verbatim>\<open>st_mtime\<close> are doubles, and their difference is
  the exact difference rounded to the nearest double, ties to the even significand. A
  double is a value here; \<open>round_double\<close> rounds a real to a significand of 53 bits.
  The exponent is not bounded: time stamps are far from overflow, and a difference of
  two doubles below the normal range is exact in both readings.
\<close>

definition pow2 :: "int \<Rightarrow> real" where
  "pow2 e = (if 0 \<le> e then 2 ^ nat e else 1 / 2 ^ nat (- e))"

text \<open>The exponent \<open>k\<close> with \<open>2^k \<le> |x| < 2^(k+1)\<close>, for \<open>x\<close> other than 0.\<close>

definition binade :: "real \<Rightarrow> int" where
  "binade x =
     (if 1 \<le> \<bar>x\<bar> then bitlen \<lfloor>\<bar>x\<bar>\<rfloor> - 1 else - bitlen (\<lceil>1 / \<bar>x\<bar>\<rceil> - 1))"

definition round_half_even :: "real \<Rightarrow> int" where
  "round_half_even y =
     (let f = \<lfloor>y\<rfloor>; r = y - of_int f in
      if r < 1 / 2 then f else if 1 / 2 < r then f + 1
      else if even f then f else f + 1)"

definition round_double :: "real \<Rightarrow> real" where
  "round_double x =
     (if x = 0 then 0
      else of_int (round_half_even (x / pow2 (binade x - 52))) * pow2 (binade x - 52))"

text \<open>\<^verbatim>\<open>a - b\<close> on two doubles.\<close>

definition float_sub :: "real \<Rightarrow> real \<Rightarrow> real" where
  "float_sub a b = round_double (a - b)"

subsection \<open>Configuration\<close>

record config =
  stt_url :: string
  openclaw_url :: string
  openclaw_hook_token :: string
  poll_interval :: int
  delete_after :: bool
  min_file_age :: int

definition AUDIO_EXTENSIONS :: "string set" where
  "AUDIO_EXTENSIONS =
     {''.m4a'', ''.ogg'', ''.wav'', ''.mp3'', ''.opus'', ''.flac'', ''.wma''}"

subsection \<open>The world\<close>

text \<open>
  An entry of the watch directory, as \<^verbatim>\<open>stat\<close>, \<^verbatim>\<open>open\<close> and
  \<^verbatim>\<open>unlink\<close> see it.
\<close>

record entry =
  is_file :: bool
  st_mtime :: real
  st_size :: nat
  readable :: bool
  removable :: bool

record transcript =
  text_field :: string
  duration :: json

record metadata =
  audio_file :: string
  recorded_at :: string
  duration_text :: "json option"
  file_size :: nat

text \<open>
  The effects that are recorded, in the order they happen: a call of the transcription
  client, a call of the delivery client, a completed write of the state file, an
  attempted deletion.
\<close>

datatype event =
    Transcribe string
  | Deliver string metadata
  | StoreWrite json
  | Unlink string

datatype stt_reply = SttRequestFailed | SttResponse int content

datatype hook_reply = HookRequestFailed | HookStatus int

text \<open>
  The endpoints answer as they please: their reply to the next request is a function of
  everything that happened so far. \<open>now\<close> and the \<open>st_mtime\<close> of an entry are the
  values of the doubles the program reads. \<open>state_dir_ok\<close> and \<open>state_write_ok\<close> say
  whether the directory of the state file can be made and the file written;
  \<open>write_fails_late\<close> says when a failing write fails, at the open or after it, when the
  file is emptied already. \<open>isoformat\<close> is the text of a UTC time, as
  \<^verbatim>\<open>save_state\<close> stamps it; \<open>local_iso\<close> is what
  \<^verbatim>\<open>datetime.fromtimestamp(t).astimezone().isoformat()\<close> gives on this platform: the
  text, or the error it raises for a time stamp it cannot represent.
\<close>

record world =
  now :: real
  isoformat :: "real \<Rightarrow> string"
  local_iso :: "real \<Rightarrow> py_error + string"
  dir :: "(string \<times> entry) list"
  state_file :: "content option"
  state_dir_ok :: bool
  state_write_ok :: bool
  write_fails_late :: bool
  stt :: "event list \<Rightarrow> stt_reply"
  hook :: "event list \<Rightarrow> hook_reply"
  trace :: "event list"

subsection \<open>State management\<close>

text \<open>
  \<^verbatim>\<open>load_state\<close>. The handler names \<^verbatim>\<open>JSONDecodeError\<close> and
  \<^verbatim>\<open>KeyError\<close>; the decoder's \<^verbatim>\<open>UnicodeDecodeError\<close>, the parser's
  \<^verbatim>\<open>RecursionError\<close>, \<^verbatim>\<open>.get\<close> on a value that is not a dict and
  \<^verbatim>\<open>set\<close> of a value that is not iterable raise neither.
\<close>

definition load_state :: "world \<Rightarrow> py_error + pykey set" where
  "load_state w =
     (case state_file w of
        None \<Rightarrow> Inr {}
      | Some Undecodable \<Rightarrow> Inl UnicodeDecodeError
      | Some NotJson \<Rightarrow> Inr {}
      | Some TooDeep \<Rightarrow> Inl RecursionError
      | Some (Json (JObj kvs)) \<Rightarrow>
          py_set (case obj_get kvs ''processed'' of None \<Rightarrow> JArr [] | Some v \<Rightarrow> v)
      | Some (Json _) \<Rightarrow> Inl AttributeError)"

text \<open>The document \<^verbatim>\<open>save_state\<close> serialises.\<close>

definition state_doc :: "pykey list \<Rightarrow> string \<Rightarrow> json" where
  "state_doc names stamp =
     JObj [(''processed'', JArr (map json_of_key names)), (''updated'', JStr stamp)]"

text \<open>
  \<^verbatim>\<open>save_state\<close>: make the directory, build the text (which sorts the set), write
  the file. A write that fails raises \<^verbatim>\<open>OSError\<close>; it fails at the open, with the
  file untouched, or after the open has emptied the file, which is then empty or cut
  off.
\<close>

definition save_state :: "pykey set \<Rightarrow> world \<Rightarrow> py_error option \<times> world" where
  "save_state processed w =
     (if \<not> state_dir_ok w then (Some OSError, w)
      else case py_sorted processed of
        Inl e \<Rightarrow> (Some e, w)
      | Inr names \<Rightarrow>
          if \<not> state_write_ok w then
            (Some OSError, if write_fails_late w then w\<lparr>state_file := Some NotJson\<rparr> else w)
          else let doc = state_doc names (isoformat w (now w)) in
            (None, w\<lparr>state_file := Some (Json doc), trace := trace w @ [StoreWrite doc]\<rparr>))"

text \<open>
  \<^verbatim>\<open>Path.write_text\<close> opens the file for writing, which empties it, writes the text
  and closes the file; there is no temporary file and no rename. A process that dies
  inside \<^verbatim>\<open>save_state\<close> leaves the file as the phase it died in made it: untouched
  before the open, empty or cut off after it (text that is not JSON, since the document
  is one object and closes with its last character), whole after the write.
\<close>

datatype write_phase = BeforeOpen | Opened | Written

definition save_state_crash :: "write_phase \<Rightarrow> pykey set \<Rightarrow> world \<Rightarrow> world" where
  "save_state_crash phase processed w =
     (if \<not> state_dir_ok w then w
      else case py_sorted processed of
        Inl e \<Rightarrow> w
      | Inr names \<Rightarrow>
          if \<not> state_write_ok w then
            (if write_fails_late w \<and> phase \<noteq> BeforeOpen
             then w\<lparr>state_file := Some NotJson\<rparr> else w)
          else (case phase of
            BeforeOpen \<Rightarrow> w
          | Opened \<Rightarrow> w\<lparr>state_file := Some NotJson\<rparr>
          | Written \<Rightarrow>
              w\<lparr>state_file := Some (Json (state_doc names (isoformat w (now w))))\<rparr>))"

subsection \<open>Speech to text\<close>

text \<open>\<^verbatim>\<open>open(path, "rb")\<close> succeeds on a regular file that may be read.\<close>

definition open_rb :: "world \<Rightarrow> string \<Rightarrow> py_error option" where
  "open_rb w name =
     (case map_of (dir w) name of
        None \<Rightarrow> Some FileNotFoundError
      | Some e \<Rightarrow> if is_file e \<and> readable e then None else Some OSError)"

text \<open>
  \<^verbatim>\<open>transcribe\<close>. \<^verbatim>\<open>raise_for_status\<close> raises on a status from 400 to 599.
  The two handlers catch \<^verbatim>\<open>RequestException\<close> and \<^verbatim>\<open>ValueError\<close>: the
  failed request, the error status and the body that does not parse end in
  \<^verbatim>\<open>None\<close>; an \<^verbatim>\<open>OSError\<close> of \<^verbatim>\<open>open\<close>, a
  \<^verbatim>\<open>RecursionError\<close> of the parser and an \<^verbatim>\<open>AttributeError\<close> of
  \<^verbatim>\<open>.get\<close> or \<^verbatim>\<open>.strip\<close> leave the function.
\<close>

definition transcribe :: "string \<Rightarrow> world \<Rightarrow> (py_error + transcript option) \<times> world" where
  "transcribe name w =
     (let w1 = w\<lparr>trace := trace w @ [Transcribe name]\<rparr> in
      case open_rb w name of
        Some e \<Rightarrow> (Inl e, w1)
      | None \<Rightarrow>
         (case stt w (trace w1) of
            SttRequestFailed \<Rightarrow> (Inr None, w1)
          | SttResponse status body \<Rightarrow>
              if 400 \<le> status \<and> status < 600 then (Inr None, w1)
              else (case body of
                Undecodable \<Rightarrow> (Inr None, w1)
              | NotJson \<Rightarrow> (Inr None, w1)
              | TooDeep \<Rightarrow> (Inl RecursionError, w1)
              | Json (JObj kvs) \<Rightarrow>
                 (case (case obj_get kvs ''text'' of None \<Rightarrow> JStr [] | Some v \<Rightarrow> v) of
                    JStr s \<Rightarrow>
                      if strip s = [] then (Inr None, w1)
                      else (Inr (Some \<lparr>text_field = strip s,
                              duration = (case obj_get kvs ''duration'' of
                                            None \<Rightarrow> JNull | Some d \<Rightarrow> d)\<rparr>), w1)
                  | _ \<Rightarrow> (Inl AttributeError, w1))
              | Json _ \<Rightarrow> (Inl AttributeError, w1))))"

subsection \<open>Webhook\<close>

text \<open>
  \<^verbatim>\<open>send_to_openclaw\<close>. The message is a fixed text around the transcript and the
  metadata; the event keeps these two.
\<close>

definition send_to_openclaw :: "string \<Rightarrow> metadata \<Rightarrow> world \<Rightarrow> bool \<times> world" where
  "send_to_openclaw transcript md w =
     (let w1 = w\<lparr>trace := trace w @ [Deliver transcript md]\<rparr> in
      case hook w (trace w1) of
        HookRequestFailed \<Rightarrow> (False, w1)
      | HookStatus status \<Rightarrow> (status = 200 \<or> status = 202, w1))"

subsection \<open>Processing\<close>

text \<open>Truth value of a decoded JSON value.\<close>

fun truthy :: "json \<Rightarrow> bool" where
  "truthy JNull = False"
| "truthy (JBool b) = b"
| "truthy (JNum x) = (x \<noteq> 0)"
| "truthy (JStr s) = (s \<noteq> [])"
| "truthy (JArr xs) = (xs \<noteq> [])"
| "truthy (JObj kvs) = (kvs \<noteq> [])"

text \<open>
  \<^verbatim>\<open>audio_path.unlink()\<close> inside its \<^verbatim>\<open>try\<close>: the attempt is an event, and
  an \<^verbatim>\<open>OSError\<close> leaves the directory as it was.
\<close>

definition unlink :: "string \<Rightarrow> world \<Rightarrow> world" where
  "unlink name w =
     (let w1 = w\<lparr>trace := trace w @ [Unlink name]\<rparr> in
      case map_of (dir w) name of
        None \<Rightarrow> w1
      | Some e \<Rightarrow>
          if is_file e \<and> removable e
          then w1\<lparr>dir := filter (\<lambda>p. fst p \<noteq> name) (dir w)\<rparr>
          else w1)"

text \<open>
  The metadata \<^verbatim>\<open>process_file\<close> builds from the file's \<^verbatim>\<open>stat\<close>, the text
  of its modification time and the transcript. The duration is given when the
  transcript's is truthy, else it is "unknown"; the formatting of the number is left
  out.
\<close>

definition build_metadata ::
  "string \<Rightarrow> entry \<Rightarrow> string \<Rightarrow> transcript \<Rightarrow> metadata" where
  "build_metadata filename e stamp result =
     \<lparr>audio_file = filename, recorded_at = stamp,
      duration_text = (if truthy (duration result) then Some (duration result) else None),
      file_size = st_size e\<rparr>"

text \<open>
  \<^verbatim>\<open>process_file\<close>. A path of the watch directory is its file name. The result is
  the returned flag or the exception, the set and the world. \<^verbatim>\<open>stat\<close> raises for a
  path that is not there; the three calls of it see the same entry, since nothing else
  runs in between. The age is a double and \<^verbatim>\<open>MIN_FILE_AGE\<close> an integer, which
  Python compares by value. The set is mutated before \<^verbatim>\<open>save_state\<close> is called, so an error
  of \<^verbatim>\<open>save_state\<close> leaves the name in the set.
\<close>

definition process_file ::
  "config \<Rightarrow> string \<Rightarrow> pykey set \<Rightarrow> world \<Rightarrow> (py_error + bool) \<times> pykey set \<times> world" where
  "process_file cfg filename processed w =
     (if KStr filename \<in> processed then (Inr False, processed, w)
      else case map_of (dir w) filename of
        None \<Rightarrow> (Inl FileNotFoundError, processed, w)
      | Some e \<Rightarrow>
          if float_sub (now w) (st_mtime e) < real_of_int (min_file_age cfg)
          then (Inr False, processed, w)
          else (case transcribe filename w of
            (Inl err, w1) \<Rightarrow> (Inl err, processed, w1)
          | (Inr None, w1) \<Rightarrow> (Inr False, processed, w1)
          | (Inr (Some result), w1) \<Rightarrow>
             (case local_iso w1 (st_mtime e) of
                Inl err \<Rightarrow> (Inl err, processed, w1)
              | Inr stamp \<Rightarrow>
                 (case send_to_openclaw (text_field result)
                         (build_metadata filename e stamp result) w1 of
                    (False, w2) \<Rightarrow> (Inr False, processed, w2)
                  | (True, w2) \<Rightarrow>
                     (case save_state (insert (KStr filename) processed) w2 of
                        (Some err, w3) \<Rightarrow> (Inl err, insert (KStr filename) processed, w3)
                      | (None, w3) \<Rightarrow>
                          (Inr True, insert (KStr filename) processed,
                           if delete_after cfg then unlink filename w3 else w3))))))"

subsection \<open>File watcher\<close>

record fs_event =
  is_directory :: bool
  src_path :: string
  dest_path :: string

text \<open>
  \<^verbatim>\<open>time.sleep\<close> moves the clock. It refuses a negative length
  (\<^verbatim>\<open>ValueError\<close>) and one whose nanoseconds do not fit 64 bits
  (\<^verbatim>\<open>OverflowError\<close>). What other programs do to the directory meanwhile is not
  modelled.
\<close>

definition sleep :: "int \<Rightarrow> world \<Rightarrow> py_error + world" where
  "sleep secs w =
     (if secs < 0 then Inl ValueError
      else if 9223372036 < secs then Inl OverflowError
      else Inr (w\<lparr>now := now w + real_of_int secs\<rparr>))"

text \<open>
  The two handlers of \<^verbatim>\<open>AudioFileHandler\<close>, on the set the handler holds (the
  same object \<^verbatim>\<open>main\<close> sweeps with). The flag \<open>process_file\<close> returns is dropped.
\<close>

definition on_created ::
  "config \<Rightarrow> fs_event \<Rightarrow> pykey set \<Rightarrow> world \<Rightarrow> py_error option \<times> pykey set \<times> world" where
  "on_created cfg ev processed w =
     (if is_directory ev then (None, processed, w)
      else if lower (suffix (src_path ev)) \<in> AUDIO_EXTENSIONS then
        (case sleep (min_file_age cfg) w of
           Inl err \<Rightarrow> (Some err, processed, w)
         | Inr w1 \<Rightarrow>
             if map_of (dir w1) (src_path ev) \<noteq> None then
               (case process_file cfg (src_path ev) processed w1 of
                  (Inl err, p', w') \<Rightarrow> (Some err, p', w')
                | (Inr b, p', w') \<Rightarrow> (None, p', w'))
             else (None, processed, w1))
      else (None, processed, w))"

definition on_moved ::
  "config \<Rightarrow> fs_event \<Rightarrow> pykey set \<Rightarrow> world \<Rightarrow> py_error option \<times> pykey set \<times> world" where
  "on_moved cfg ev processed w =
     (if is_directory ev then (None, processed, w)
      else if lower (suffix (dest_path ev)) \<in> AUDIO_EXTENSIONS then
        (case sleep (min_file_age cfg) w of
           Inl err \<Rightarrow> (Some err, processed, w)
         | Inr w1 \<Rightarrow>
             if map_of (dir w1) (dest_path ev) \<noteq> None then
               (case process_file cfg (dest_path ev) processed w1 of
                  (Inl err, p', w') \<Rightarrow> (Some err, p', w')
                | (Inr b, p', w') \<Rightarrow> (None, p', w'))
             else (None, processed, w1))
      else (None, processed, w))"

subsection \<open>Main\<close>

text \<open>
  The loop of \<^verbatim>\<open>process_existing\<close> over the sorted listing, which is made once
  before the loop; \<^verbatim>\<open>is_file\<close> is asked when the path's turn comes.
\<close>

fun process_existing_loop ::
  "config \<Rightarrow> string list \<Rightarrow> nat \<Rightarrow> pykey set \<Rightarrow> world \<Rightarrow> (py_error + nat) \<times> pykey set \<times> world"
where
  "process_existing_loop cfg [] count processed w = (Inr count, processed, w)"
| "process_existing_loop cfg (path # paths) count processed w =
     (if (case map_of (dir w) path of None \<Rightarrow> False | Some e \<Rightarrow> is_file e)
         \<and> lower (suffix path) \<in> AUDIO_EXTENSIONS
      then (case process_file cfg path processed w of
              (Inl err, p', w') \<Rightarrow> (Inl err, p', w')
            | (Inr b, p', w') \<Rightarrow>
                process_existing_loop cfg paths (if b then count + 1 else count) p' w')
      else process_existing_loop cfg paths count processed w)"

definition process_existing ::
  "config \<Rightarrow> pykey set \<Rightarrow> world \<Rightarrow> py_error option \<times> pykey set \<times> world" where
  "process_existing cfg processed w =
     (case process_existing_loop cfg (sort (remdups (map fst (dir w)))) 0 processed w of
        (Inl err, p', w') \<Rightarrow> (Some err, p', w')
      | (Inr count, p', w') \<Rightarrow> (None, p', w'))"

text \<open>
  How a run of \<^verbatim>\<open>main\<close> ends: \<^verbatim>\<open>sys.exit\<close> with a status after an error
  line, an exception that nothing catches, or still in its loop when the rounds counted
  here are over.
\<close>

datatype outcome =
    SysExit int string world
  | Uncaught py_error "pykey set" world
  | Running "pykey set" world

text \<open>The \<^verbatim>\<open>while True\<close> of \<^verbatim>\<open>main\<close>, for a number of rounds.\<close>

fun main_loop :: "config \<Rightarrow> nat \<Rightarrow> pykey set \<Rightarrow> world \<Rightarrow> outcome" where
  "main_loop cfg 0 processed w = Running processed w"
| "main_loop cfg (Suc n) processed w =
     (case sleep (poll_interval cfg) w of
        Inl err \<Rightarrow> Uncaught err processed w
      | Inr w1 \<Rightarrow>
         (case process_existing cfg processed w1 of
            (Some err, p', w') \<Rightarrow> Uncaught err p' w'
          | (None, p', w') \<Rightarrow> main_loop cfg n p' w'))"

text \<open>
  \<^verbatim>\<open>main\<close>: the three checks, the load, the first sweep, the loop. The watch
  directory is taken to exist; the observer's events arrive through \<open>on_created\<close> and
  \<open>on_moved\<close>.
\<close>

definition main :: "config \<Rightarrow> nat \<Rightarrow> world \<Rightarrow> outcome" where
  "main cfg rounds w =
     (if stt_url cfg = [] then SysExit 1 ''STT_URL is required'' w
      else if openclaw_url cfg = [] then SysExit 1 ''OPENCLAW_URL is required'' w
      else if openclaw_hook_token cfg = [] then
        SysExit 1 ''OPENCLAW_HOOK_TOKEN is required'' w
      else case load_state w of
        Inl err \<Rightarrow> Uncaught err {} w
      | Inr processed \<Rightarrow>
         (case process_existing cfg processed w of
            (Some err, p', w') \<Rightarrow> Uncaught err p' w'
          | (None, p', w') \<Rightarrow> main_loop cfg rounds p' w'))"

subsection \<open>Example worlds\<close>

definition cfg0 :: config where
  "cfg0 = \<lparr>stt_url = ''http://stt/v1/audio/transcriptions'',
            openclaw_url = ''http://openclaw'', openclaw_hook_token = ''secret'',
            poll_interval = 5, delete_after = True, min_file_age = 5\<rparr>"

definition voice_note :: "real \<Rightarrow> entry" where
  "voice_note t = \<lparr>is_file = True, st_mtime = t, st_size = 2048, readable = True,
             removable = True\<rparr>"

text \<open>
  One note, ten seconds old; the STT endpoint answers with a transcript and the
  webhook with the given reply.
\<close>

definition world0 :: "hook_reply \<Rightarrow> world" where
  "world0 r =
     \<lparr>now = 100, isoformat = (\<lambda>t. ''2026-01-01T00:00:00+00:00''),
      local_iso = (\<lambda>t. Inr ''2026-01-01T00:59:50+01:00''),
      dir = [(''note1.m4a'', voice_note 90)],
      state_file = None, state_dir_ok = True, state_write_ok = True,
      write_fails_late = False,
      stt = (\<lambda>tr. SttResponse 200 (Json (JObj [(''text'', JStr ''buy milk'')]))),
      hook = (\<lambda>tr. r), trace = []\<rparr>"

text \<open>The note cannot be deleted.\<close>

definition world_stuck :: world where
  "world_stuck = (world0 (HookStatus 200))
     \<lparr>dir := [(''note1.m4a'', (voice_note 90)\<lparr>removable := False\<rparr>)]\<rparr>"

text \<open>The STT endpoint answers with a text of blanks.\<close>

definition world_blank :: world where
  "world_blank = (world0 (HookStatus 200))
     \<lparr>stt := (\<lambda>tr. SttResponse 200 (Json (JObj [(''text'', JStr ''   '')])))\<rparr>"

text \<open>A state file from an earlier save.\<close>

definition world_saved :: world where
  "world_saved = (world0 (HookStatus 202))
     \<lparr>state_file :=
        Some (Json (state_doc [KStr ''note0.m4a''] ''2025-12-31T23:00:00+00:00''))\<rparr>"

text \<open>
  A note whose exact age is a little under the minimum of \<open>cfg_far\<close>, and so close
  that the double nearest to it is the minimum.
\<close>

definition cfg_far :: config where
  "cfg_far = cfg0\<lparr>min_file_age := 100000000\<rparr>"

definition world_far :: world where
  "world_far = (world0 (HookStatus 202))
     \<lparr>now := 100000000, dir := [(''note1.m4a'', voice_note (1 / 2 ^ 30))]\<rparr>"

text \<open>Two notes, both old enough, and a state file that cannot be written.\<close>

definition world_ro :: world where
  "world_ro = (world0 (HookStatus 202))
     \<lparr>dir := [(''note1.m4a'', voice_note 90), (''note2.wav'', voice_note 80)],
      state_write_ok := False\<rparr>"

section \<open>Properties\<close>

subsection \<open>Rounding to a double\<close>

lemma pow2_powr: "pow2 e = 2 powr real_of_int e"
  by (simp add: pow2_def powr_real_of_int field_simps)

lemma pow2_pos: "0 < pow2 e"
  by (simp add: pow2_powr)

lemma pow2_add: "pow2 (a + b) = pow2 a * pow2 b"
  by (simp add: pow2_powr powr_add)

lemma pow2_mono: "a \<le> b \<Longrightarrow> pow2 a \<le> pow2 b"
  by (simp add: pow2_powr)

lemma pow2_nat: "pow2 (int n) = 2 ^ n"
  by (simp add: pow2_def)

lemma binade_bounds:
  assumes "x \<noteq> 0"
  shows "pow2 (binade x) \<le> \<bar>x\<bar> \<and> \<bar>x\<bar> < pow2 (binade x + 1)"
proof (cases "1 \<le> \<bar>x\<bar>")
  case True
  define m where "m = \<lfloor>\<bar>x\<bar>\<rfloor>"
  have m: "0 < m" using True by (simp add: m_def)
  have b: "2 ^ nat (bitlen m - 1) \<le> m \<and> m < 2 ^ nat (bitlen m)"
    using bitlen_bounds [OF m] .
  have k: "1 \<le> bitlen m" using m by (auto simp: bitlen_alt_def)
  have e: "binade x = bitlen m - 1" using True by (simp add: binade_def m_def)
  have "real_of_int (2 ^ nat (bitlen m - 1)) \<le> real_of_int m" using b by linarith
  also have "real_of_int m \<le> \<bar>x\<bar>" by (simp add: m_def)
  finally have lo: "pow2 (binade x) \<le> \<bar>x\<bar>" using k by (simp add: e pow2_def)
  have "m + 1 \<le> 2 ^ nat (bitlen m)" using b by linarith
  then have "real_of_int (m + 1) \<le> real_of_int (2 ^ nat (bitlen m))" by linarith
  moreover have "\<bar>x\<bar> < real_of_int (m + 1)" unfolding m_def by linarith
  ultimately have hi: "\<bar>x\<bar> < pow2 (binade x + 1)" using k by (simp add: e pow2_def)
  show ?thesis using lo hi by simp
next
  case False
  define y where "y = 1 / \<bar>x\<bar>"
  have x: "0 < \<bar>x\<bar>" "\<bar>x\<bar> < 1" using assms False by auto
  then have y: "1 < y" by (simp add: y_def)
  define n where "n = \<lceil>y\<rceil> - 1"
  have n: "0 < n" using y unfolding n_def by linarith
  have ny: "real_of_int n < y \<and> y \<le> real_of_int n + 1" unfolding n_def by linarith
  define k where "k = bitlen n"
  have b: "2 ^ nat (k - 1) \<le> n \<and> n < 2 ^ nat k"
    unfolding k_def using bitlen_bounds [OF n] .
  have k: "1 \<le> k" using n by (auto simp: k_def bitlen_alt_def)
  have e: "binade x = - k" using False by (simp add: binade_def k_def n_def y_def)
  have "n + 1 \<le> 2 ^ nat k" using b by linarith
  then have "real_of_int (n + 1) \<le> real_of_int (2 ^ nat k)" by linarith
  then have "y \<le> 2 ^ nat k" using ny by simp
  then have lo: "pow2 (binade x) \<le> \<bar>x\<bar>"
    using k x by (simp add: e pow2_def y_def field_simps)
  have p: "real_of_int (2 ^ nat (k - 1)) \<le> real_of_int n" using b by linarith
  have q: "real_of_int (2 ^ nat (k - 1)) = 2 ^ nat (k - 1)" by simp
  have "2 ^ nat (k - 1) < y" using p ny unfolding q by linarith
  then have hi: "\<bar>x\<bar> < pow2 (binade x + 1)"
    using k x by (simp add: e pow2_def y_def field_simps)
  show ?thesis using lo hi by simp
qed


lemma round_half_even_of_int: "round_half_even (of_int n) = n"
  by (simp add: round_half_even_def)

lemma round_half_even_bounds:
  "\<lfloor>y\<rfloor> \<le> round_half_even y \<and> round_half_even y \<le> \<lfloor>y\<rfloor> + 1"
  by (simp add: round_half_even_def Let_def)

lemma round_half_even_mono:
  assumes "x \<le> y"
  shows "round_half_even x \<le> round_half_even y"
proof (cases "\<lfloor>x\<rfloor> = \<lfloor>y\<rfloor>")
  case True
  then have "x - of_int \<lfloor>x\<rfloor> \<le> y - of_int \<lfloor>y\<rfloor>" using assms by simp
  then show ?thesis using True by (auto simp add: round_half_even_def Let_def)
next
  case False
  have "\<lfloor>x\<rfloor> \<le> \<lfloor>y\<rfloor>" using assms by (rule floor_mono)
  then have "\<lfloor>x\<rfloor> + 1 \<le> \<lfloor>y\<rfloor>" using False by linarith
  then show ?thesis
    using round_half_even_bounds [of x] round_half_even_bounds [of y] by linarith
qed

lemma round_half_even_minus: "round_half_even (- y) = - round_half_even y"
proof (cases "y = of_int \<lfloor>y\<rfloor>")
  case True
  then obtain n where "y = of_int n" ..
  then show ?thesis
    by (metis of_int_minus round_half_even_of_int)
next
  case False
  then have f: "\<lfloor>- y\<rfloor> = - \<lfloor>y\<rfloor> - 1"
    by (metis ceiling_altdef ceiling_def diff_minus_eq_add minus_diff_eq uminus_add_conv_diff add.commute  floor_minus)
  
  show ?thesis
    using False by (simp add: round_half_even_def Let_def f)
qed


lemma binade_minus: "binade (- x) = binade x"
  by (simp add: binade_def)

lemma round_double_minus: "round_double (- x) = - round_double x"
  by (simp add: round_double_def binade_minus round_half_even_minus)

text \<open>A positive number rounds into the closed binade it lies in.\<close>

lemma round_double_pos_bounds:
  assumes "0 < x"
  shows "pow2 (binade x) \<le> round_double x \<and> round_double x \<le> pow2 (binade x + 1)"
proof -
  define u where "u = pow2 (binade x - 52)"
  have u: "0 < u" by (simp add: u_def pow2_pos)
  have b: "pow2 (binade x) \<le> x \<and> x < pow2 (binade x + 1)"
    using binade_bounds [of x] assms by simp
  have p52: "pow2 52 = 2 ^ 52" and p53: "pow2 53 = 2 ^ 53" by (simp_all add: pow2_def)
  have "pow2 (52 + (binade x - 52)) = pow2 52 * pow2 (binade x - 52)" by (rule pow2_add)
  then have lo_eq: "pow2 (binade x) = 2 ^ 52 * u" by (simp add: p52 u_def)
  have "pow2 (53 + (binade x - 52)) = pow2 53 * pow2 (binade x - 52)" by (rule pow2_add)
  then have hi_eq: "pow2 (binade x + 1) = 2 ^ 53 * u" by (simp add: p53 u_def add.commute)
  have xb: "2 ^ 52 * u \<le> x \<and> x < 2 ^ 53 * u" using b unfolding lo_eq hi_eq .
  have "real_of_int (2 ^ 52) \<le> x / u" using xb u by (simp add: field_simps)
  then have "round_half_even (real_of_int (2 ^ 52)) \<le> round_half_even (x / u)"
    by (rule round_half_even_mono)
  then have lo: "2 ^ 52 \<le> round_half_even (x / u)"
    by (simp only: round_half_even_of_int)
  have "x / u \<le> real_of_int (2 ^ 53)" using xb u by (simp add: field_simps)
  then have "round_half_even (x / u) \<le> round_half_even (real_of_int (2 ^ 53))"
    by (rule round_half_even_mono)
  then have hi: "round_half_even (x / u) \<le> 2 ^ 53"
    by (simp only: round_half_even_of_int)
  have r: "round_double x = of_int (round_half_even (x / u)) * u"
    using assms by (simp add: round_double_def u_def)
  have "real_of_int (2 ^ 52) * u \<le> of_int (round_half_even (x / u)) * u"
    using lo u by (simp only: mult_le_cancel_right_pos of_int_le_iff)
  moreover have "of_int (round_half_even (x / u)) * u \<le> real_of_int (2 ^ 53) * u"
    using hi u by (simp only: mult_le_cancel_right_pos of_int_le_iff)
  ultimately show ?thesis by (simp add: r lo_eq hi_eq)
qed

lemma binade_mono_pos:
  assumes "0 < x" and "x \<le> y"
  shows "binade x \<le> binade y"
proof (rule ccontr)
  assume "\<not> binade x \<le> binade y"
  then have "binade y + 1 \<le> binade x" by simp
  then have "pow2 (binade y + 1) \<le> pow2 (binade x)" by (rule pow2_mono)
  moreover have "pow2 (binade x) \<le> x" using binade_bounds [of x] assms by simp
  moreover have "y < pow2 (binade y + 1)" using binade_bounds [of y] assms by simp
  ultimately show False using assms by linarith
qed

lemma round_double_mono_pos:
  assumes "0 < x" and "x \<le> y"
  shows "round_double x \<le> round_double y"
proof (cases "binade x = binade y")
  case True
  define u where "u = pow2 (binade y - 52)"
  have u: "0 < u" by (simp add: u_def pow2_pos)
  have "x / u \<le> y / u" using assms u by (simp add: divide_right_mono)
  then have "round_half_even (x / u) \<le> round_half_even (y / u)"
    by (rule round_half_even_mono)
  then have "real_of_int (round_half_even (x / u)) * u \<le> real_of_int (round_half_even (y / u)) * u"
    using u by (simp only: mult_le_cancel_right_pos of_int_le_iff)
  then show ?thesis using assms True by (simp add: round_double_def u_def)
next
  case False
  then have "binade x + 1 \<le> binade y" using binade_mono_pos [OF assms] by simp
  then have "pow2 (binade x + 1) \<le> pow2 (binade y)" by (rule pow2_mono)
  moreover have "round_double x \<le> pow2 (binade x + 1)"
    using round_double_pos_bounds [of x] assms by simp
  moreover have "pow2 (binade y) \<le> round_double y"
    using round_double_pos_bounds [of y] assms by simp
  ultimately show ?thesis by linarith
qed

lemma round_double_nonneg: "0 \<le> x \<Longrightarrow> 0 \<le> round_double x"
  using round_double_pos_bounds [of x] pow2_pos [of "binade x"]
  by (cases "x = 0") (auto simp: round_double_def)

lemma round_double_mono:
  assumes "x \<le> y"
  shows "round_double x \<le> round_double y"
proof -
  consider "0 < x" | "x \<le> 0" "0 \<le> y" | "y < 0" by linarith
  then show ?thesis
  proof cases
    case 1
    then show ?thesis using assms by (rule round_double_mono_pos)
  next
    case 2
    have "0 \<le> round_double (- x)" using 2 by (simp add: round_double_nonneg)
    then have "round_double x \<le> 0" by (simp add: round_double_minus)
    moreover have "0 \<le> round_double y" using 2 by (simp add: round_double_nonneg)
    ultimately show ?thesis by linarith
  next
    case 3
    have "round_double (- y) \<le> round_double (- x)"
      using 3 assms by (intro round_double_mono_pos) auto
    then show ?thesis by (simp add: round_double_minus)
  qed
qed

lemma binade_eqI:
  assumes "pow2 k \<le> \<bar>x\<bar>" and "\<bar>x\<bar> < pow2 (k + 1)"
  shows "binade x = k"
proof -
  have x: "x \<noteq> 0" using assms pow2_pos [of k] by auto
  have b: "pow2 (binade x) \<le> \<bar>x\<bar> \<and> \<bar>x\<bar> < pow2 (binade x + 1)"
    using binade_bounds [OF x] .
  show ?thesis
  proof (rule ccontr)
    assume "binade x \<noteq> k"
    then consider "binade x + 1 \<le> k" | "k + 1 \<le> binade x" by linarith
    then show False
    proof cases
      case 1
      then have "pow2 (binade x + 1) \<le> pow2 k" by (rule pow2_mono)
      then show False using assms b by linarith
    next
      case 2
      then have "pow2 (k + 1) \<le> pow2 (binade x)" by (rule pow2_mono)
      then show False using assms b by linarith
    qed
  qed
qed

lemma round_half_even_near:
  assumes "\<bar>y - of_int n\<bar> < 1 / 2"
  shows "round_half_even y = n"
proof (cases "of_int n \<le> y")
  case True
  then have "\<lfloor>y\<rfloor> = n" using assms by (intro floor_unique) auto
  then show ?thesis using assms True by (auto simp: round_half_even_def Let_def)
next
  case False
  then have "\<lfloor>y\<rfloor> = n - 1" using assms by (intro floor_unique) auto
  then show ?thesis using assms False by (auto simp: round_half_even_def Let_def)
qed

lemma round_double_eqI:
  assumes "pow2 k \<le> \<bar>x\<bar>" and "\<bar>x\<bar> < pow2 (k + 1)"
    and "\<bar>x / pow2 (k - 52) - of_int n\<bar> < 1 / 2"
  shows "round_double x = of_int n * pow2 (k - 52)"
proof -
  have b: "binade x = k" using assms(1,2) by (rule binade_eqI)
  have x: "x \<noteq> 0" using assms(1) pow2_pos [of k] by auto
  have "round_half_even (x / pow2 (k - 52)) = n"
    using assms(3) by (rule round_half_even_near)
  then show ?thesis using x by (simp add: round_double_def b)
qed

lemma float_sub_mono: "a \<le> a' \<Longrightarrow> float_sub a b \<le> float_sub a' b"
  by (simp add: float_sub_def round_double_mono)

lemma float_sub_100_90: "float_sub 100 90 = 10"
  using round_double_eqI [of 3 "100 - 90" 5629499534213120]
  by (simp add: pow2_def float_sub_def)

lemma float_sub_100_80: "float_sub 100 80 = 20"
  using round_double_eqI [of 4 "100 - 80" 5629499534213120]
  by (simp add: pow2_def float_sub_def)

lemma float_sub_far: "float_sub 100000000 (1 / 1073741824) = 100000000"
  using round_double_eqI [of 26 "100000000 - 1 / 1073741824" 6710886400000000]
  by (simp add: pow2_def float_sub_def)

subsection \<open>What each step does to the world\<close>

lemma transcribe_world: "snd (transcribe f w) = w\<lparr>trace := trace w @ [Transcribe f]\<rparr>"
  by (simp add: transcribe_def Let_def
           split: option.splits stt_reply.splits content.splits json.splits)

lemma send_world:
  "snd (send_to_openclaw t md w) = w\<lparr>trace := trace w @ [Deliver t md]\<rparr>"
  by (simp add: send_to_openclaw_def Let_def split: hook_reply.splits)

lemma send_ok:
  "fst (send_to_openclaw t md w)
     \<longleftrightarrow> hook w (trace w @ [Deliver t md]) \<in> {HookStatus 200, HookStatus 202}"
  by (auto simp add: send_to_openclaw_def Let_def split: hook_reply.splits)

lemma save_state_world:
  "snd (save_state p w) =
     (case fst (save_state p w) of
        Some err \<Rightarrow>
          if state_dir_ok w \<and> \<not> isl (py_sorted p) \<and> write_fails_late w
          then w\<lparr>state_file := Some NotJson\<rparr> else w
      | None \<Rightarrow>
          w\<lparr>state_file := Some (Json (state_doc (projr (py_sorted p)) (isoformat w (now w)))),
            trace := trace w
              @ [StoreWrite (state_doc (projr (py_sorted p)) (isoformat w (now w)))]\<rparr>)"
  by (auto simp: save_state_def Let_def split: if_splits sum.splits)

lemma unlink_trace: "trace (unlink f w) = trace w @ [Unlink f]"
  by (simp add: unlink_def Let_def split: option.splits)

lemma unlink_state_file: "state_file (unlink f w) = state_file w"
  by (simp add: unlink_def Let_def split: option.splits)

text \<open>\<open>process_file\<close> with the worlds of its steps written out.\<close>

lemma process_file_unfold:
  "process_file cfg f p w =
     (if KStr f \<in> p then (Inr False, p, w)
      else case map_of (dir w) f of
        None \<Rightarrow> (Inl FileNotFoundError, p, w)
      | Some e \<Rightarrow>
          if float_sub (now w) (st_mtime e) < real_of_int (min_file_age cfg)
          then (Inr False, p, w)
          else let w1 = w\<lparr>trace := trace w @ [Transcribe f]\<rparr> in
            (case fst (transcribe f w) of
               Inl err \<Rightarrow> (Inl err, p, w1)
             | Inr None \<Rightarrow> (Inr False, p, w1)
             | Inr (Some r) \<Rightarrow>
                (case local_iso w (st_mtime e) of
                   Inl err \<Rightarrow> (Inl err, p, w1)
                 | Inr stamp \<Rightarrow>
                    let md = build_metadata f e stamp r;
                        w2 = w\<lparr>trace := trace w @ [Transcribe f, Deliver (text_field r) md]\<rparr>
                    in if hook w (trace w2) \<in> {HookStatus 200, HookStatus 202}
                       then (case fst (save_state (insert (KStr f) p) w2) of
                               Some err \<Rightarrow>
                                 (Inl err, insert (KStr f) p,
                                  snd (save_state (insert (KStr f) p) w2))
                             | None \<Rightarrow> (Inr True, insert (KStr f) p,
                                  let w3 = snd (save_state (insert (KStr f) p) w2)
                                  in if delete_after cfg then unlink f w3 else w3))
                       else (Inr False, p, w2))))"
  by (simp add: process_file_def case_prod_beta transcribe_world send_world Let_def send_ok
        split: option.splits sum.splits bool.splits)

lemma stable_starts_transcribe:
  assumes "map_of (dir w) f = Some e"
    and "real_of_int (min_file_age cfg) \<le> float_sub (now w) (st_mtime e)"
    and "KStr f \<notin> p"
  shows "\<exists>rest. trace (snd (snd (process_file cfg f p w))) = trace w @ Transcribe f # rest"
  using assms
  by (simp add: process_file_unfold Let_def save_state_world unlink_trace
           split: sum.splits option.splits)

lemma process_file_mono: "p \<subseteq> fst (snd (process_file cfg f p w))"
  by (auto simp add: process_file_unfold Let_def split: option.splits sum.splits)

lemma process_file_adds_only: "fst (snd (process_file cfg f p w)) \<subseteq> insert (KStr f) p"
  by (auto simp add: process_file_unfold Let_def split: option.splits sum.splits)

lemma process_existing_loop_mono:
  "p \<subseteq> fst (snd (process_existing_loop cfg paths n p w))"
proof (induction paths arbitrary: n p w)
  case Nil
  then show ?case by simp
next
  case (Cons path paths)
  obtain res p' w' where pf: "process_file cfg path p w = (res, p', w')"
    by (cases "process_file cfg path p w")
  then have sub: "p \<subseteq> p'" using process_file_mono [of p cfg path w] by simp
  show ?case
  proof (cases res)
    case (Inl err)
    then show ?thesis using pf sub Cons.IH [of p n w] by auto
  next
    case (Inr b)
    have "p' \<subseteq> fst (snd (process_existing_loop cfg paths (if b then n + 1 else n) p' w'))"
      by (rule Cons.IH)
    then show ?thesis using pf sub Inr Cons.IH [of p n w] by auto
  qed
qed

lemma process_existing_mono: "p \<subseteq> fst (snd (process_existing cfg p w))"
  using process_existing_loop_mono [of p cfg "sort (remdups (map fst (dir w)))" 0 w]
  by (auto simp add: process_existing_def split: prod.splits sum.splits)

lemma on_created_mono: "p \<subseteq> fst (snd (on_created cfg ev p w))"
proof -
  have "p \<subseteq> fst (snd (case process_file cfg path p v of
                          (Inl err, p', w') \<Rightarrow> (Some err, p', w')
                        | (Inr b, p', w') \<Rightarrow> (None, p', w')))" for path v
    using process_file_mono [of p cfg path v] by (auto split: prod.splits sum.splits)
  then show ?thesis by (simp add: on_created_def sleep_def)
qed

lemma on_moved_mono: "p \<subseteq> fst (snd (on_moved cfg ev p w))"
proof -
  have "p \<subseteq> fst (snd (case process_file cfg path p v of
                          (Inl err, p', w') \<Rightarrow> (Some err, p', w')
                        | (Inr b, p', w') \<Rightarrow> (None, p', w')))" for path v
    using process_file_mono [of p cfg path v] by (auto split: prod.splits sum.splits)
  then show ?thesis by (simp add: on_moved_def sleep_def)
qed

subsection \<open>Sorting and stripping\<close>

lemma KStr_un_KStr: "is_KStr k \<Longrightarrow> KStr (un_KStr k) = k"
  by (cases k) simp_all

lemma KNum_un_KNum: "is_KNum k \<Longrightarrow> KNum (un_KNum k) = k"
  by (cases k) simp_all

lemma py_sorted_set:
  assumes "finite s" and "py_sorted s = Inr names"
  shows "set names = s"
proof -
  have str: "KStr ` un_KStr ` s = s" if "\<forall>k\<in>s. is_KStr k"
    using that by (force simp: image_image KStr_un_KStr)
  have num: "KNum ` un_KNum ` s = s" if "\<forall>k\<in>s. is_KNum k"
    using that by (force simp: image_image KNum_un_KNum)
  show ?thesis
    using assms str num by (auto simp: py_sorted_def split: if_splits)
qed

lemma py_sorted_strings:
  "finite names \<Longrightarrow> py_sorted (KStr ` names) = Inr (map KStr (sorted_list_of_set names))"
  by (simp add: py_sorted_def image_image)

lemma save_state_ok_sorted:
  "fst (save_state s w) = None \<Longrightarrow> py_sorted s = Inr (projr (py_sorted s))"
  by (auto simp: save_state_def Let_def split: if_splits sum.splits)

lemma strip_strip: "strip (strip s) = strip s"
proof -
  define t where "t = dropWhile isspace s"
  define u where "u = dropWhile isspace (rev t)"
  have "dropWhile isspace (rev u) = rev u"
  proof (cases "u = []")
    case True
    then show ?thesis by simp
  next
    case False
    then have t: "t \<noteq> []" by (auto simp: u_def)
    then have h: "\<not> isspace (hd t)" unfolding t_def by (rule hd_dropWhile)
    from False obtain x where "x \<in> set (rev t)" and "\<not> isspace x"
      by (auto simp: u_def dropWhile_eq_Nil_conv)
    then have "last u = last (rev t)" unfolding u_def by (rule dropWhile_last)
    then have "last u = hd t" using t by (simp add: last_rev)
    then have "\<not> isspace (hd (rev u))" using h False by (simp add: hd_rev)
    then show ?thesis using False by (cases "rev u") auto
  qed
  then show ?thesis by (simp add: strip_def t_def u_def)
qed

lemma strip_blank:
  assumes "\<forall>c\<in>set s. isspace c"
  shows "strip s = []"
proof -
  have d: "dropWhile isspace s = []" using assms by (induction s) auto
  show ?thesis unfolding strip_def d by simp
qed

lemma strip_ends:
  assumes "strip s \<noteq> []"
  shows "\<not> isspace (hd (strip s)) \<and> \<not> isspace (last (strip s))"
proof -
  define t where "t = dropWhile isspace s"
  define u where "u = dropWhile isspace (rev t)"
  have s: "strip s = rev u" by (simp add: strip_def t_def u_def)
  with assms have u: "u \<noteq> []" by simp
  then have t: "t \<noteq> []" by (auto simp: u_def)
  have hu: "\<not> isspace (hd u)" using u unfolding u_def by (rule hd_dropWhile)
  have ht: "\<not> isspace (hd t)" using t unfolding t_def by (rule hd_dropWhile)
  from u obtain x where "x \<in> set (rev t)" and "\<not> isspace x"
    by (auto simp: u_def dropWhile_eq_Nil_conv)
  then have "last u = last (rev t)" unfolding u_def by (rule dropWhile_last)
  then have "last u = hd t" using t by (simp add: last_rev)
  then show ?thesis using s u hu ht by (simp add: hd_rev last_rev)
qed

text \<open>The definitions a concrete run unfolds.\<close>

lemmas eval_defs = process_file_def world0_def cfg0_def voice_note_def
  transcribe_def open_rb_def obj_get_def strip_def isspace_def Let_def send_to_openclaw_def
  build_metadata_def save_state_def py_sorted_def state_doc_def unlink_def
  float_sub_100_90 float_sub_100_80

lemmas sweep_defs = process_existing_def main_def load_state_def suffix_def lower_def
  lower_char_def AUDIO_EXTENSIONS_def

subsection \<open>Idempotence\<close>

text \<open>
  C1. A file name that is in the processed set already: \<open>process_file\<close> returns
  \<^verbatim>\<open>False\<close> and leaves the set and the whole world as they were, so the trace gains
  no transcription call, no delivery call, no store write and no deletion. The same
  holds when the name comes from the sweep's loop, and when it comes from a create or
  move event, where nothing but the clock moves.
\<close>

theorem process_file_skips_processed:
  assumes "KStr f \<in> processed"
  shows "process_file cfg f processed w = (Inr False, processed, w)
       \<and> process_existing_loop cfg [f] n processed w = (Inr n, processed, w)
       \<and> (src_path ev = f \<longrightarrow>
            fst (snd (on_created cfg ev processed w)) = processed
          \<and> trace (snd (snd (on_created cfg ev processed w))) = trace w
          \<and> dir (snd (snd (on_created cfg ev processed w))) = dir w
          \<and> state_file (snd (snd (on_created cfg ev processed w))) = state_file w)
       \<and> (dest_path ev = f \<longrightarrow>
            fst (snd (on_moved cfg ev processed w)) = processed
          \<and> trace (snd (snd (on_moved cfg ev processed w))) = trace w
          \<and> dir (snd (snd (on_moved cfg ev processed w))) = dir w
          \<and> state_file (snd (snd (on_moved cfg ev processed w))) = state_file w)"
proof -
  have pf: "process_file cfg f processed w' = (Inr False, processed, w')" for w'
    using assms by (simp add: process_file_def)
  show ?thesis
    by (simp add: pf on_created_def on_moved_def sleep_def)
qed

theorem process_file_skips_processed_witness:
  "KStr ''note1.m4a'' \<in> {KStr ''note1.m4a''}
   \<and> process_file cfg0 ''note1.m4a'' {KStr ''note1.m4a''} (world0 (HookStatus 202))
       = (Inr False, {KStr ''note1.m4a''}, world0 (HookStatus 202))
   \<and> trace (snd (snd (on_created cfg0
        \<lparr>is_directory = False, src_path = ''note1.m4a'', dest_path = ''note1.m4a''\<rparr>
        {KStr ''note1.m4a''} (world0 (HookStatus 202))))) = []
   \<and> trace (snd (snd (on_moved cfg0
        \<lparr>is_directory = False, src_path = ''note1.m4a'', dest_path = ''note1.m4a''\<rparr>
        {KStr ''note1.m4a''} (world0 (HookStatus 202))))) = []"
  using process_file_skips_processed [of "''note1.m4a''" "{KStr ''note1.m4a''}" cfg0
      "world0 (HookStatus 202)" 0
      "\<lparr>is_directory = False, src_path = ''note1.m4a'', dest_path = ''note1.m4a''\<rparr>"]
  by (simp add: world0_def)

subsection \<open>Age gate\<close>

text \<open>
  C5. A candidate that exists with modification time \<open>st_mtime e\<close>. The age the code
  tests is the double \<open>float_sub (now w) (st_mtime e)\<close>. If it is below
  \<open>min_file_age\<close>, \<open>process_file\<close> returns \<^verbatim>\<open>False\<close> with the set and the world
  untouched: the transcription client is not called and nothing else happens. If it is
  \<open>min_file_age\<close> or more (and the name is not processed yet), the first thing that
  happens is the call of the transcription client for it.
\<close>

theorem process_file_age_gate:
  assumes "map_of (dir w) f = Some e"
  shows "(float_sub (now w) (st_mtime e) < real_of_int (min_file_age cfg) \<longrightarrow>
            process_file cfg f processed w = (Inr False, processed, w))
       \<and> (real_of_int (min_file_age cfg) \<le> float_sub (now w) (st_mtime e)
            \<and> KStr f \<notin> processed \<longrightarrow>
            (\<exists>rest. trace (snd (snd (process_file cfg f processed w)))
                      = trace w @ Transcribe f # rest))"
proof (intro conjI impI)
  assume "float_sub (now w) (st_mtime e) < real_of_int (min_file_age cfg)"
  then show "process_file cfg f processed w = (Inr False, processed, w)"
    using assms by (simp add: process_file_def)
next
  assume "real_of_int (min_file_age cfg) \<le> float_sub (now w) (st_mtime e)
            \<and> KStr f \<notin> processed"
  then show "\<exists>rest. trace (snd (snd (process_file cfg f processed w)))
                      = trace w @ Transcribe f # rest"
    using assms by (simp add: stable_starts_transcribe)
qed

theorem process_file_age_gate_witness:
  "map_of (dir (world0 (HookStatus 202))) ''note1.m4a'' = Some (voice_note 90)
   \<and> float_sub (now (world0 (HookStatus 202))) (st_mtime (voice_note 90)) = 10
   \<and> process_file (cfg0\<lparr>min_file_age := 20\<rparr>) ''note1.m4a'' {} (world0 (HookStatus 202))
       = (Inr False, {}, world0 (HookStatus 202))
   \<and> (\<exists>rest. trace (snd (snd (process_file cfg0 ''note1.m4a'' {} (world0 (HookStatus 202)))))
              = Transcribe ''note1.m4a'' # rest)"
proof -
  have d: "map_of (dir (world0 (HookStatus 202))) ''note1.m4a'' = Some (voice_note 90)"
    by (simp add: world0_def)
  have a: "float_sub (now (world0 (HookStatus 202))) (st_mtime (voice_note 90)) = 10"
    by (simp add: world0_def voice_note_def float_sub_100_90)
  have skip: "process_file (cfg0\<lparr>min_file_age := 20\<rparr>) ''note1.m4a'' {}
                (world0 (HookStatus 202)) = (Inr False, {}, world0 (HookStatus 202))"
    using process_file_age_gate [OF d, of "cfg0\<lparr>min_file_age := 20\<rparr>" "{}"] a by simp
  have go: "\<exists>rest. trace (snd (snd (process_file cfg0 ''note1.m4a'' {}
                (world0 (HookStatus 202))))) = trace (world0 (HookStatus 202))
                  @ Transcribe ''note1.m4a'' # rest"
    using process_file_age_gate [OF d, of cfg0 "{}"] a by (simp add: cfg0_def)
  have t: "trace (world0 (HookStatus 202)) = []" by (simp add: world0_def)
  show ?thesis using d a skip go unfolding t by simp
qed

text \<open>
  The exact age does not decide: in \<open>world_far\<close> the note's exact age is under the
  minimum of \<open>cfg_far\<close> by \<open>2^-30\<close> seconds, the double difference is the minimum
  itself, and the note is transcribed.
\<close>

theorem exact_age_below_minimum_transcribed:
  "map_of (dir world_far) ''note1.m4a'' = Some (voice_note (1 / 2 ^ 30))
   \<and> now world_far - st_mtime (voice_note (1 / 2 ^ 30)) < real_of_int (min_file_age cfg_far)
   \<and> process_file cfg_far ''note1.m4a'' {} world_far \<noteq> (Inr False, {}, world_far)
   \<and> hd (trace (snd (snd (process_file cfg_far ''note1.m4a'' {} world_far))))
       = Transcribe ''note1.m4a''"
  by (simp add: world_far_def cfg_far_def process_file_def world0_def cfg0_def
        voice_note_def float_sub_far transcribe_def open_rb_def obj_get_def strip_def
        isspace_def Let_def send_to_openclaw_def build_metadata_def save_state_def
        py_sorted_def state_doc_def unlink_def)

subsection \<open>Delivery\<close>

text \<open>
  C6. \<open>send_to_openclaw\<close> returns \<^verbatim>\<open>True\<close> exactly when the endpoint answers
  with status 200 or 202; any other status and a failed request give \<^verbatim>\<open>False\<close>.
  When a candidate gets as far as the delivery and the delivery fails,
  \<open>process_file\<close> returns \<^verbatim>\<open>False\<close>, the processed set is the one it was given,
  and the world differs from the one before only in the two calls on the trace: the
  state file is not written, the file is not deleted. Presented again \<open>d\<close> seconds
  later, the candidate is transcribed again. That the candidate got as far as the
  delivery includes that it passed the code's age test, on the double difference.
\<close>

theorem delivery_failure_leaves_candidate:
  "(fst (send_to_openclaw t md v) \<longleftrightarrow>
      hook v (trace v @ [Deliver t md]) = HookStatus 200
    \<or> hook v (trace v @ [Deliver t md]) = HookStatus 202)
   \<and> (KStr f \<notin> processed \<and> map_of (dir w) f = Some e
      \<and> real_of_int (min_file_age cfg) \<le> float_sub (now w) (st_mtime e)
      \<and> fst (transcribe f w) = Inr (Some r)
      \<and> local_iso w (st_mtime e) = Inr stamp
      \<and> \<not> fst (send_to_openclaw (text_field r) (build_metadata f e stamp r)
               (snd (transcribe f w)))
      \<and> 0 \<le> d
      \<longrightarrow> process_file cfg f processed w =
            (Inr False, processed,
             w\<lparr>trace := trace w @ [Transcribe f,
                                    Deliver (text_field r) (build_metadata f e stamp r)]\<rparr>)
        \<and> (\<exists>rest. trace (snd (snd (process_file cfg f processed
                      (w\<lparr>trace := trace w @ [Transcribe f,
                                    Deliver (text_field r) (build_metadata f e stamp r)],
                         now := now w + d\<rparr>))))
                  = trace w @ [Transcribe f, Deliver (text_field r) (build_metadata f e stamp r),
                               Transcribe f] @ rest))"
proof -
  let ?w2 = "w\<lparr>trace := trace w @ [Transcribe f,
                                    Deliver (text_field r) (build_metadata f e stamp r)]\<rparr>"
  have again: "\<exists>rest. trace (snd (snd (process_file cfg f processed (?w2\<lparr>now := now w + d\<rparr>))))
                 = trace w @ [Transcribe f, Deliver (text_field r) (build_metadata f e stamp r),
                              Transcribe f] @ rest"
    if "map_of (dir w) f = Some e"
      and "real_of_int (min_file_age cfg) \<le> float_sub (now w) (st_mtime e)"
      and "KStr f \<notin> processed" and "0 \<le> d"
  proof -
    have "float_sub (now w) (st_mtime e) \<le> float_sub (now w + d) (st_mtime e)"
      using that(4) by (intro float_sub_mono) simp
    then have "real_of_int (min_file_age cfg) \<le> float_sub (now w + d) (st_mtime e)"
      using that(2) by linarith
    then show ?thesis
      using stable_starts_transcribe [of "?w2\<lparr>now := now w + d\<rparr>" f e cfg processed] that
      by simp
  qed
  have failed: "process_file cfg f processed w = (Inr False, processed, ?w2)"
    if "KStr f \<notin> processed" and "map_of (dir w) f = Some e"
      and "real_of_int (min_file_age cfg) \<le> float_sub (now w) (st_mtime e)"
      and "fst (transcribe f w) = Inr (Some r)"
      and "local_iso w (st_mtime e) = Inr stamp"
      and "\<not> fst (send_to_openclaw (text_field r) (build_metadata f e stamp r)
                   (snd (transcribe f w)))"
    using that by (simp add: send_ok transcribe_world process_file_unfold Let_def)
  have iff: "fst (send_to_openclaw t md v) \<longleftrightarrow>
      hook v (trace v @ [Deliver t md]) = HookStatus 200
    \<or> hook v (trace v @ [Deliver t md]) = HookStatus 202"
    by (simp add: send_ok)
  show ?thesis
    using again failed iff by blast
qed

theorem delivery_failure_leaves_candidate_witness:
  "\<not> fst (send_to_openclaw ''buy milk''
            (build_metadata ''note1.m4a'' (voice_note 90)
               ''2026-01-01T00:59:50+01:00''
               \<lparr>text_field = ''buy milk'', duration = JNull\<rparr>)
            (snd (transcribe ''note1.m4a'' (world0 (HookStatus 503)))))
   \<and> process_file cfg0 ''note1.m4a'' {} (world0 (HookStatus 503)) =
       (Inr False, {},
        (world0 (HookStatus 503))\<lparr>trace := [Transcribe ''note1.m4a'',
           Deliver ''buy milk'' (build_metadata ''note1.m4a'' (voice_note 90)
               ''2026-01-01T00:59:50+01:00''
               \<lparr>text_field = ''buy milk'', duration = JNull\<rparr>)]\<rparr>)"
proof -
  have t0: "fst (transcribe ''note1.m4a'' (world0 (HookStatus 503)))
              = Inr (Some \<lparr>text_field = ''buy milk'', duration = JNull\<rparr>)"
    by (simp add: eval_defs)
  show ?thesis
    using delivery_failure_leaves_candidate [where t = "''buy milk''"
      and md = "build_metadata ''note1.m4a'' (voice_note 90)
                  ''2026-01-01T00:59:50+01:00''
                  \<lparr>text_field = ''buy milk'', duration = JNull\<rparr>"
      and v = "snd (transcribe ''note1.m4a'' (world0 (HookStatus 503)))"
      and f = "''note1.m4a''" and processed = "{}" and w = "world0 (HookStatus 503)"
      and e = "voice_note 90" and cfg = cfg0 and d = 5
      and stamp = "''2026-01-01T00:59:50+01:00''"
      and r = "\<lparr>text_field = ''buy milk'', duration = JNull\<rparr>"]
    by (simp add: t0 transcribe_world)
       (simp add: world0_def cfg0_def voice_note_def float_sub_100_90)
qed

subsection \<open>The processed marker\<close>

lemma process_file_True:
  assumes "fst (process_file cfg f p w) = Inr True"
  shows "\<exists>e r stamp. map_of (dir w) f = Some e \<and> fst (transcribe f w) = Inr (Some r)
           \<and> fst (save_state (insert (KStr f) p)
                  (w\<lparr>trace := trace w @ [Transcribe f,
                       Deliver (text_field r) (build_metadata f e stamp r)]\<rparr>)) = None
           \<and> snd (process_file cfg f p w) =
               (insert (KStr f) p,
                let w3 = snd (save_state (insert (KStr f) p)
                  (w\<lparr>trace := trace w @ [Transcribe f,
                       Deliver (text_field r) (build_metadata f e stamp r)]\<rparr>))
                in if delete_after cfg then unlink f w3 else w3)"
  using assms
  by (auto simp add: process_file_unfold Let_def split: option.splits sum.splits if_splits)

lemma process_file_delivered:
  assumes "KStr f \<notin> p" and "map_of (dir w) f = Some e"
    and "real_of_int (min_file_age cfg) \<le> float_sub (now w) (st_mtime e)"
    and "fst (transcribe f w) = Inr (Some r)"
    and "local_iso w (st_mtime e) = Inr stamp"
    and "hook w (trace w @ [Transcribe f, Deliver (text_field r) (build_metadata f e stamp r)])
           \<in> {HookStatus 200, HookStatus 202}"
  shows "process_file cfg f p w =
     (case fst (save_state (insert (KStr f) p)
                  (w\<lparr>trace := trace w @ [Transcribe f,
                       Deliver (text_field r) (build_metadata f e stamp r)]\<rparr>)) of
        Some err \<Rightarrow>
          (Inl err, insert (KStr f) p,
           snd (save_state (insert (KStr f) p)
                  (w\<lparr>trace := trace w @ [Transcribe f,
                       Deliver (text_field r) (build_metadata f e stamp r)]\<rparr>)))
      | None \<Rightarrow>
          (Inr True, insert (KStr f) p,
           let w3 = snd (save_state (insert (KStr f) p)
                  (w\<lparr>trace := trace w @ [Transcribe f,
                       Deliver (text_field r) (build_metadata f e stamp r)]\<rparr>))
           in if delete_after cfg then unlink f w3 else w3))"
  using assms by (simp add: process_file_unfold Let_def)

lemma save_state_failed:
  assumes "fst (save_state s v) = Some err"
  shows "trace (snd (save_state s v)) = trace v \<and> dir (snd (save_state s v)) = dir v
       \<and> (state_file (snd (save_state s v)) = state_file v
          \<or> state_file (snd (save_state s v)) = Some NotJson)"
  using assms by (auto simp: save_state_def Let_def split: if_splits sum.splits)

text \<open>
  C7. No operation takes a name out of the processed set: \<open>process_file\<close>, the sweep
  and both event handlers return a superset of the set they were given, and
  \<open>process_file\<close> adds at most the candidate's own name. When it adds the name, the
  trace shows the delivery call before anything else that follows, and the endpoint
  answered that call with 200 or 202.

  When the delivery of a candidate succeeds, the name is in the set that
  \<open>process_file\<close> leaves, whatever follows. What follows is the call of
  \<open>save_state\<close> on the set with the name. If that raises, the error leaves
  \<open>process_file\<close>: the trace ends with the delivery, so no write of the state file
  was completed and no deletion attempted, and the directory is as it was. If it
  returns, \<open>process_file\<close> returns \<^verbatim>\<open>True\<close> and the effects after the delivery
  are, in this order, the write of the state file and (if deletion is configured) the
  attempt to delete; the document written lists exactly the old set and the new name,
  and it is what the state file holds at the end, whether or not the deletion
  succeeded. The last part says the same of every call that returns \<^verbatim>\<open>True\<close>.
\<close>

theorem processed_marker_discipline:
  "p \<subseteq> fst (snd (process_file cfg f p w))
   \<and> fst (snd (process_file cfg f p w)) \<subseteq> insert (KStr f) p
   \<and> p \<subseteq> fst (snd (process_existing cfg p w))
   \<and> p \<subseteq> fst (snd (on_created cfg ev p w))
   \<and> p \<subseteq> fst (snd (on_moved cfg ev p w))
   \<and> (KStr f \<notin> p \<and> KStr f \<in> fst (snd (process_file cfg f p w)) \<longrightarrow>
        (\<exists>t md rest.
            trace (snd (snd (process_file cfg f p w)))
              = trace w @ [Transcribe f, Deliver t md] @ rest
          \<and> hook w (trace w @ [Transcribe f, Deliver t md])
              \<in> {HookStatus 200, HookStatus 202}))
   \<and> (KStr f \<notin> p \<and> map_of (dir w) f = Some e
      \<and> real_of_int (min_file_age cfg) \<le> float_sub (now w) (st_mtime e)
      \<and> fst (transcribe f w) = Inr (Some r)
      \<and> local_iso w (st_mtime e) = Inr stamp
      \<and> hook w (trace w @ [Transcribe f, Deliver (text_field r) (build_metadata f e stamp r)])
           \<in> {HookStatus 200, HookStatus 202}
      \<and> finite p
      \<longrightarrow>
        fst (snd (process_file cfg f p w)) = insert (KStr f) p
      \<and> (fst (save_state (insert (KStr f) p)
                  (w\<lparr>trace := trace w @ [Transcribe f,
                       Deliver (text_field r) (build_metadata f e stamp r)]\<rparr>)) \<noteq> None \<longrightarrow>
           (\<exists>err. fst (save_state (insert (KStr f) p)
                  (w\<lparr>trace := trace w @ [Transcribe f,
                       Deliver (text_field r) (build_metadata f e stamp r)]\<rparr>)) = Some err
                \<and> fst (process_file cfg f p w) = Inl err)
         \<and> trace (snd (snd (process_file cfg f p w)))
             = trace w @ [Transcribe f, Deliver (text_field r) (build_metadata f e stamp r)]
         \<and> dir (snd (snd (process_file cfg f p w))) = dir w
         \<and> (state_file (snd (snd (process_file cfg f p w))) = state_file w
            \<or> state_file (snd (snd (process_file cfg f p w))) = Some NotJson))
      \<and> (fst (save_state (insert (KStr f) p)
                  (w\<lparr>trace := trace w @ [Transcribe f,
                       Deliver (text_field r) (build_metadata f e stamp r)]\<rparr>)) = None \<longrightarrow>
           fst (process_file cfg f p w) = Inr True
         \<and> (\<exists>names. py_sorted (insert (KStr f) p) = Inr names
              \<and> set names = insert (KStr f) p
              \<and> trace (snd (snd (process_file cfg f p w)))
                  = trace w @ [Transcribe f,
                       Deliver (text_field r) (build_metadata f e stamp r),
                       StoreWrite (state_doc names (isoformat w (now w)))]
                     @ (if delete_after cfg then [Unlink f] else [])
              \<and> state_file (snd (snd (process_file cfg f p w)))
                  = Some (Json (state_doc names (isoformat w (now w)))))))
   \<and> (finite p \<and> fst (process_file cfg f p w) = Inr True \<longrightarrow>
        (\<exists>t md names.
            trace (snd (snd (process_file cfg f p w)))
              = trace w @ [Transcribe f, Deliver t md,
                           StoreWrite (state_doc names (isoformat w (now w)))]
                        @ (if delete_after cfg then [Unlink f] else [])
          \<and> set names = insert (KStr f) p
          \<and> fst (snd (process_file cfg f p w)) = insert (KStr f) p
          \<and> state_file (snd (snd (process_file cfg f p w)))
              = Some (Json (state_doc names (isoformat w (now w))))))"
proof -
  have c1: "p \<subseteq> fst (snd (process_file cfg f p w))" by (rule process_file_mono)
  have c2: "fst (snd (process_file cfg f p w)) \<subseteq> insert (KStr f) p"
    by (rule process_file_adds_only)
  have c3: "p \<subseteq> fst (snd (process_existing cfg p w))" by (rule process_existing_mono)
  have c4: "p \<subseteq> fst (snd (on_created cfg ev p w))" by (rule on_created_mono)
  have c5: "p \<subseteq> fst (snd (on_moved cfg ev p w))" by (rule on_moved_mono)
  have c6: "KStr f \<notin> p \<and> KStr f \<in> fst (snd (process_file cfg f p w)) \<longrightarrow>
        (\<exists>t md rest.
            trace (snd (snd (process_file cfg f p w)))
              = trace w @ [Transcribe f, Deliver t md] @ rest
          \<and> hook w (trace w @ [Transcribe f, Deliver t md])
              \<in> {HookStatus 200, HookStatus 202})"
    by (auto simp add: process_file_unfold Let_def save_state_world unlink_trace
             split: option.splits sum.splits if_splits)
  have c7: "fst (snd (process_file cfg f p w)) = insert (KStr f) p
      \<and> (fst (save_state (insert (KStr f) p)
                  (w\<lparr>trace := trace w @ [Transcribe f,
                       Deliver (text_field r) (build_metadata f e stamp r)]\<rparr>)) \<noteq> None \<longrightarrow>
           (\<exists>err. fst (save_state (insert (KStr f) p)
                  (w\<lparr>trace := trace w @ [Transcribe f,
                       Deliver (text_field r) (build_metadata f e stamp r)]\<rparr>)) = Some err
                \<and> fst (process_file cfg f p w) = Inl err)
         \<and> trace (snd (snd (process_file cfg f p w)))
             = trace w @ [Transcribe f, Deliver (text_field r) (build_metadata f e stamp r)]
         \<and> dir (snd (snd (process_file cfg f p w))) = dir w
         \<and> (state_file (snd (snd (process_file cfg f p w))) = state_file w
            \<or> state_file (snd (snd (process_file cfg f p w))) = Some NotJson))
      \<and> (fst (save_state (insert (KStr f) p)
                  (w\<lparr>trace := trace w @ [Transcribe f,
                       Deliver (text_field r) (build_metadata f e stamp r)]\<rparr>)) = None \<longrightarrow>
           fst (process_file cfg f p w) = Inr True
         \<and> (\<exists>names. py_sorted (insert (KStr f) p) = Inr names
              \<and> set names = insert (KStr f) p
              \<and> trace (snd (snd (process_file cfg f p w)))
                  = trace w @ [Transcribe f,
                       Deliver (text_field r) (build_metadata f e stamp r),
                       StoreWrite (state_doc names (isoformat w (now w)))]
                     @ (if delete_after cfg then [Unlink f] else [])
              \<and> state_file (snd (snd (process_file cfg f p w)))
                  = Some (Json (state_doc names (isoformat w (now w))))))"
    if a: "KStr f \<notin> p \<and> map_of (dir w) f = Some e
      \<and> real_of_int (min_file_age cfg) \<le> float_sub (now w) (st_mtime e)
      \<and> fst (transcribe f w) = Inr (Some r)
      \<and> local_iso w (st_mtime e) = Inr stamp
      \<and> hook w (trace w @ [Transcribe f, Deliver (text_field r) (build_metadata f e stamp r)])
           \<in> {HookStatus 200, HookStatus 202}
      \<and> finite p"
  proof -
    let ?w2 = "w\<lparr>trace := trace w @ [Transcribe f,
                       Deliver (text_field r) (build_metadata f e stamp r)]\<rparr>"
    let ?sv = "save_state (insert (KStr f) p) ?w2"
    have pf: "process_file cfg f p w =
       (case fst ?sv of
          Some err \<Rightarrow> (Inl err, insert (KStr f) p, snd ?sv)
        | None \<Rightarrow> (Inr True, insert (KStr f) p,
             let w3 = snd ?sv in if delete_after cfg then unlink f w3 else w3))"
      using a process_file_delivered [of f p w e cfg r stamp] by simp
    have 1: "fst (snd (process_file cfg f p w)) = insert (KStr f) p"
      by (simp add: pf split: option.splits)
    have 2: "(\<exists>err. fst ?sv = Some err \<and> fst (process_file cfg f p w) = Inl err)
           \<and> trace (snd (snd (process_file cfg f p w))) = trace ?w2
           \<and> dir (snd (snd (process_file cfg f p w))) = dir w
           \<and> (state_file (snd (snd (process_file cfg f p w))) = state_file w
              \<or> state_file (snd (snd (process_file cfg f p w))) = Some NotJson)"
      if "fst ?sv \<noteq> None"
    proof -
      from that obtain err where err: "fst ?sv = Some err" by auto
      show ?thesis using err save_state_failed [OF err] by (auto simp add: pf)
    qed
    have 3: "fst (process_file cfg f p w) = Inr True
           \<and> (\<exists>names. py_sorted (insert (KStr f) p) = Inr names
                \<and> set names = insert (KStr f) p
                \<and> trace (snd (snd (process_file cfg f p w)))
                    = trace ?w2 @ [StoreWrite (state_doc names (isoformat w (now w)))]
                       @ (if delete_after cfg then [Unlink f] else [])
                \<and> state_file (snd (snd (process_file cfg f p w)))
                    = Some (Json (state_doc names (isoformat w (now w)))))"
      if "fst ?sv = None"
    proof -
      define names where "names = projr (py_sorted (insert (KStr f) p))"
      have s: "py_sorted (insert (KStr f) p) = Inr names"
        unfolding names_def using that by (rule save_state_ok_sorted)
      then have mem: "set names = insert (KStr f) p"
        using a py_sorted_set [of "insert (KStr f) p" names] by simp
      have t: "fst (process_file cfg f p w) = Inr True" using that by (simp add: pf)
      have tr: "trace (snd (snd (process_file cfg f p w)))
                  = trace ?w2 @ [StoreWrite (state_doc names (isoformat w (now w)))]
                     @ (if delete_after cfg then [Unlink f] else [])"
        using that by (simp add: pf save_state_world Let_def unlink_trace names_def)
      have sf: "state_file (snd (snd (process_file cfg f p w)))
                  = Some (Json (state_doc names (isoformat w (now w))))"
        using that by (simp add: pf save_state_world Let_def unlink_state_file names_def)
      show ?thesis using t s mem tr sf by blast
    qed
    show ?thesis using 1 2 3 by simp
  qed
  have c8: "finite p \<and> fst (process_file cfg f p w) = Inr True \<longrightarrow>
        (\<exists>t md names.
            trace (snd (snd (process_file cfg f p w)))
              = trace w @ [Transcribe f, Deliver t md,
                           StoreWrite (state_doc names (isoformat w (now w)))]
                        @ (if delete_after cfg then [Unlink f] else [])
          \<and> set names = insert (KStr f) p
          \<and> fst (snd (process_file cfg f p w)) = insert (KStr f) p
          \<and> state_file (snd (snd (process_file cfg f p w)))
              = Some (Json (state_doc names (isoformat w (now w)))))"
  proof
    assume a: "finite p \<and> fst (process_file cfg f p w) = Inr True"
    from a obtain e r stamp where
      sv: "fst (save_state (insert (KStr f) p)
                  (w\<lparr>trace := trace w @ [Transcribe f,
                       Deliver (text_field r) (build_metadata f e stamp r)]\<rparr>)) = None"
      and pf: "snd (process_file cfg f p w) =
               (insert (KStr f) p,
                let w3 = snd (save_state (insert (KStr f) p)
                  (w\<lparr>trace := trace w @ [Transcribe f,
                       Deliver (text_field r) (build_metadata f e stamp r)]\<rparr>))
                in if delete_after cfg then unlink f w3 else w3)"
      using process_file_True [of cfg f p w] by blast
    define names where "names = projr (py_sorted (insert (KStr f) p))"
    have "py_sorted (insert (KStr f) p) = Inr names"
      unfolding names_def using sv by (rule save_state_ok_sorted)
    then have mem: "set names = insert (KStr f) p"
      using a py_sorted_set [of "insert (KStr f) p" names] by simp
    show "\<exists>t md names.
            trace (snd (snd (process_file cfg f p w)))
              = trace w @ [Transcribe f, Deliver t md,
                           StoreWrite (state_doc names (isoformat w (now w)))]
                        @ (if delete_after cfg then [Unlink f] else [])
          \<and> set names = insert (KStr f) p
          \<and> fst (snd (process_file cfg f p w)) = insert (KStr f) p
          \<and> state_file (snd (snd (process_file cfg f p w)))
              = Some (Json (state_doc names (isoformat w (now w))))"
      apply (rule exI [of _ "text_field r"])
      apply (rule exI [of _ "build_metadata f e stamp r"])
      apply (rule exI [of _ names])
      using mem sv pf
      apply (simp add: save_state_world Let_def unlink_trace unlink_state_file names_def)
      done
  qed
  show ?thesis
    using c1 c2 c3 c4 c5 c6 c7 c8 by blast
qed

theorem processed_marker_discipline_witness:
  "finite ({} :: pykey set)
   \<and> KStr ''note1.m4a'' \<notin> {}
   \<and> hook world_stuck [Transcribe ''note1.m4a'',
          Deliver ''buy milk'' (build_metadata ''note1.m4a''
             ((voice_note 90)\<lparr>removable := False\<rparr>) ''2026-01-01T00:59:50+01:00''
             \<lparr>text_field = ''buy milk'', duration = JNull\<rparr>)] = HookStatus 200
   \<and> process_file cfg0 ''note1.m4a'' {} world_stuck =
      (Inr True, {KStr ''note1.m4a''},
       world_stuck\<lparr>
         state_file :=
           Some (Json (state_doc [KStr ''note1.m4a''] ''2026-01-01T00:00:00+00:00'')),
         trace := [Transcribe ''note1.m4a'',
                   Deliver ''buy milk'' (build_metadata ''note1.m4a''
                      ((voice_note 90)\<lparr>removable := False\<rparr>)
                      ''2026-01-01T00:59:50+01:00''
                      \<lparr>text_field = ''buy milk'', duration = JNull\<rparr>),
                   StoreWrite (state_doc [KStr ''note1.m4a''] ''2026-01-01T00:00:00+00:00''),
                   Unlink ''note1.m4a'']\<rparr>)
   \<and> hook world_ro [Transcribe ''note1.m4a'',
          Deliver ''buy milk'' (build_metadata ''note1.m4a'' (voice_note 90)
             ''2026-01-01T00:59:50+01:00''
             \<lparr>text_field = ''buy milk'', duration = JNull\<rparr>)] = HookStatus 202
   \<and> process_file cfg0 ''note1.m4a'' {} world_ro =
      (Inl OSError, {KStr ''note1.m4a''},
       world_ro\<lparr>trace := [Transcribe ''note1.m4a'',
          Deliver ''buy milk'' (build_metadata ''note1.m4a'' (voice_note 90)
             ''2026-01-01T00:59:50+01:00''
             \<lparr>text_field = ''buy milk'', duration = JNull\<rparr>)]\<rparr>)"
proof -
  have stuck: "process_file cfg0 ''note1.m4a'' {} world_stuck =
      (Inr True, {KStr ''note1.m4a''},
       world_stuck\<lparr>
         state_file :=
           Some (Json (state_doc [KStr ''note1.m4a''] ''2026-01-01T00:00:00+00:00'')),
         trace := [Transcribe ''note1.m4a'',
                   Deliver ''buy milk'' (build_metadata ''note1.m4a''
                      ((voice_note 90)\<lparr>removable := False\<rparr>)
                      ''2026-01-01T00:59:50+01:00''
                      \<lparr>text_field = ''buy milk'', duration = JNull\<rparr>),
                   StoreWrite (state_doc [KStr ''note1.m4a''] ''2026-01-01T00:00:00+00:00''),
                   Unlink ''note1.m4a'']\<rparr>)"
    using processed_marker_discipline [of "{}" cfg0 "''note1.m4a''" world_stuck
        "\<lparr>is_directory = False, src_path = ''note1.m4a'', dest_path = ''note1.m4a''\<rparr>"
        "(voice_note 90)\<lparr>removable := False\<rparr>"
        "\<lparr>text_field = ''buy milk'', duration = JNull\<rparr>" "''2026-01-01T00:59:50+01:00''"]
    by (simp add: eval_defs world_stuck_def)
  have ro: "process_file cfg0 ''note1.m4a'' {} world_ro =
      (Inl OSError, {KStr ''note1.m4a''},
       world_ro\<lparr>trace := [Transcribe ''note1.m4a'',
          Deliver ''buy milk'' (build_metadata ''note1.m4a'' (voice_note 90)
             ''2026-01-01T00:59:50+01:00''
             \<lparr>text_field = ''buy milk'', duration = JNull\<rparr>)]\<rparr>)"
    using processed_marker_discipline [of "{}" cfg0 "''note1.m4a''" world_ro
        "\<lparr>is_directory = False, src_path = ''note1.m4a'', dest_path = ''note1.m4a''\<rparr>"
        "voice_note 90"
        "\<lparr>text_field = ''buy milk'', duration = JNull\<rparr>" "''2026-01-01T00:59:50+01:00''"]
    by (simp add: eval_defs world_ro_def)
  show ?thesis
    using stuck ro by (simp add: world_stuck_def world_ro_def world0_def)
qed

subsection \<open>Transcripts\<close>

text \<open>
  C9. When the file opens and the STT endpoint's response parses as an object whose
  \<^verbatim>\<open>text\<close> is missing or is a string of nothing but whitespace (the empty string
  among them), \<open>transcribe\<close> returns \<^verbatim>\<open>None\<close>. Whenever it returns a
  transcript, the text of it is not empty, begins and ends with a character that is not
  whitespace, and stripping it again changes nothing.
\<close>

theorem transcribe_text_nonempty:
  "(open_rb w f = None
      \<and> stt w (trace w @ [Transcribe f]) = SttResponse status (Json (JObj kvs))
      \<and> (obj_get kvs ''text'' = None
         \<or> obj_get kvs ''text'' = Some (JStr s) \<and> (\<forall>c\<in>set s. isspace c))
      \<longrightarrow> fst (transcribe f w) = Inr None)
   \<and> (fst (transcribe f w) = Inr (Some r) \<longrightarrow>
        text_field r \<noteq> [] \<and> strip (text_field r) = text_field r
      \<and> \<not> isspace (hd (text_field r)) \<and> \<not> isspace (last (text_field r)))"
proof -
  have none: "fst (transcribe f w) = Inr None"
    if "open_rb w f = None
      \<and> stt w (trace w @ [Transcribe f]) = SttResponse status (Json (JObj kvs))
      \<and> (obj_get kvs ''text'' = None
         \<or> obj_get kvs ''text'' = Some (JStr s) \<and> (\<forall>c\<in>set s. isspace c))"
    using that strip_blank [of s] by (auto simp add: transcribe_def Let_def strip_blank)
  have some: "text_field r \<noteq> [] \<and> strip (text_field r) = text_field r
      \<and> \<not> isspace (hd (text_field r)) \<and> \<not> isspace (last (text_field r))"
    if "fst (transcribe f w) = Inr (Some r)"
  proof -
    from that have "\<exists>s. strip s \<noteq> [] \<and> text_field r = strip s"
      by (auto simp add: transcribe_def Let_def
           split: option.splits stt_reply.splits content.splits json.splits if_splits)
    then show ?thesis using strip_ends by (auto simp: strip_strip)
  qed
  show ?thesis using none some by blast
qed

theorem transcribe_text_nonempty_witness:
  "open_rb world_blank ''note1.m4a'' = None
   \<and> isspace CHR '' ''
   \<and> fst (transcribe ''note1.m4a'' world_blank) = Inr None
   \<and> fst (transcribe ''note1.m4a'' (world0 (HookStatus 200)))
        = Inr (Some \<lparr>text_field = ''buy milk'', duration = JNull\<rparr>)
   \<and> strip ''buy milk'' = ''buy milk''"
  using transcribe_text_nonempty [of world_blank "''note1.m4a''" 200
          "[(''text'', JStr ''   '')]" "''   ''"
          "\<lparr>text_field = ''buy milk'', duration = JNull\<rparr>"]
        transcribe_text_nonempty [of "world0 (HookStatus 200)" "''note1.m4a''" 200
          "[(''text'', JStr ''buy milk'')]" "''   ''"
          "\<lparr>text_field = ''buy milk'', duration = JNull\<rparr>"]
  by (simp add: world_blank_def eval_defs)

subsection \<open>The state file\<close>

text \<open>
  C10. For a finite set of file names and a state file that can be written,
  \<open>save_state\<close> returns normally and \<open>load_state\<close> on the world it leaves returns the
  same set.
\<close>

theorem save_load_roundtrip:
  assumes "finite names" and "state_dir_ok w" and "state_write_ok w"
  shows "fst (save_state (KStr ` names) w) = None
       \<and> load_state (snd (save_state (KStr ` names) w)) = Inr (KStr ` names)"
  using assms
  by (simp add: save_state_def py_sorted_strings Let_def load_state_def state_doc_def
        obj_get_def comp_def image_iff)

theorem save_load_roundtrip_witness:
  "finite {''b.wav'', ''a.m4a''}
   \<and> state_dir_ok (world0 (HookStatus 200)) \<and> state_write_ok (world0 (HookStatus 200))
   \<and> fst (save_state {KStr ''b.wav'', KStr ''a.m4a''} (world0 (HookStatus 200))) = None
   \<and> state_file (snd (save_state {KStr ''b.wav'', KStr ''a.m4a''} (world0 (HookStatus 200))))
       = Some (Json (JObj [(''processed'', JArr [JStr ''a.m4a'', JStr ''b.wav'']),
                           (''updated'', JStr ''2026-01-01T00:00:00+00:00'')]))
   \<and> load_state (snd (save_state {KStr ''b.wav'', KStr ''a.m4a''} (world0 (HookStatus 200))))
       = Inr {KStr ''b.wav'', KStr ''a.m4a''}"
  using save_load_roundtrip [of "{''b.wav'', ''a.m4a''}" "world0 (HookStatus 200)"]
  by (simp add: world0_def save_state_def py_sorted_def state_doc_def Let_def)

text \<open>
  C3. \<open>load_state\<close> returns the empty set when the state file is missing and when
  its text is not JSON, and the listed names when it holds a document of the shape
  \<open>save_state\<close> writes. It does not return for every content: a text that is JSON
  but not an object (here the empty list) raises \<^verbatim>\<open>AttributeError\<close>, and an object
  whose \<^verbatim>\<open>processed\<close> is \<^verbatim>\<open>null\<close> raises \<^verbatim>\<open>TypeError\<close>; the handler
  catches neither.
\<close>

theorem load_state_unexpected_content:
  "load_state (w\<lparr>state_file := None\<rparr>) = Inr {}
   \<and> load_state (w\<lparr>state_file := Some NotJson\<rparr>) = Inr {}
   \<and> load_state (w\<lparr>state_file := Some (Json (JObj [(''processed'', JArr (map JStr names)),
                                                    (''updated'', JStr stamp)]))\<rparr>)
        = Inr (KStr ` set names)
   \<and> load_state (w\<lparr>state_file := Some (Json (JArr []))\<rparr>) = Inl AttributeError
   \<and> load_state (w\<lparr>state_file := Some (Json (JObj [(''processed'', JNull)]))\<rparr>)
        = Inl TypeError"
  by (simp add: load_state_def obj_get_def comp_def image_iff)

text \<open>
  C4. \<open>save_state\<close> with a set that sorts and a state file that can be written
  returns normally and leaves the document of the whole set and the time stamp in the
  file. The write is made in place. A process that dies before the file is opened leaves
  the old content and one that dies after the write leaves the new content; one that
  dies in between leaves text that is not JSON, which \<open>load_state\<close> reads as the
  empty set: never the new content, and the old content only if that was no JSON
  either.
\<close>

theorem save_state_in_place:
  assumes "finite s" and "py_sorted s = Inr names"
    and "state_dir_ok w" and "state_write_ok w"
  shows "save_state s w =
           (None, w\<lparr>state_file := Some (Json (state_doc names (isoformat w (now w)))),
                    trace := trace w @ [StoreWrite (state_doc names (isoformat w (now w)))]\<rparr>)
       \<and> set names = s
       \<and> state_file (save_state_crash BeforeOpen s w) = state_file w
       \<and> state_file (save_state_crash Written s w) = state_file (snd (save_state s w))
       \<and> state_file (save_state_crash Opened s w) = Some NotJson
       \<and> load_state (save_state_crash Opened s w) = Inr {}
       \<and> state_file (save_state_crash Opened s w) \<noteq> state_file (snd (save_state s w))
       \<and> (state_file w \<noteq> Some NotJson \<longrightarrow>
            state_file (save_state_crash Opened s w) \<noteq> state_file w)"
  using assms py_sorted_set [of s names]
  by (auto simp add: save_state_def save_state_crash_def load_state_def Let_def)

theorem save_state_in_place_witness:
  "finite {KStr ''note0.m4a'', KStr ''note1.m4a''}
   \<and> py_sorted {KStr ''note0.m4a'', KStr ''note1.m4a''}
        = Inr [KStr ''note0.m4a'', KStr ''note1.m4a'']
   \<and> state_dir_ok world_saved \<and> state_write_ok world_saved
   \<and> state_file world_saved \<noteq> Some NotJson
   \<and> state_file (snd (save_state {KStr ''note0.m4a'', KStr ''note1.m4a''} world_saved))
        = Some (Json (JObj [(''processed'', JArr [JStr ''note0.m4a'', JStr ''note1.m4a'']),
                            (''updated'', JStr ''2026-01-01T00:00:00+00:00'')]))
   \<and> load_state (save_state_crash Opened {KStr ''note0.m4a'', KStr ''note1.m4a''} world_saved)
        = Inr {}"
proof -
  have srt: "py_sorted {KStr ''note0.m4a'', KStr ''note1.m4a''}
        = Inr [KStr ''note0.m4a'', KStr ''note1.m4a'']"
    by (simp add: py_sorted_def)
  have ok: "state_dir_ok world_saved \<and> state_write_ok world_saved"
    by (simp add: world_saved_def world0_def)
  show ?thesis
    using srt ok
      save_state_in_place [of "{KStr ''note0.m4a'', KStr ''note1.m4a''}"
        "[KStr ''note0.m4a'', KStr ''note1.m4a'']" world_saved]
    by (simp add: state_doc_def world_saved_def world0_def)
qed

text \<open>
  The write is not atomic: the second save of \<open>world_saved\<close>, cut off after the
  open, leaves neither the old document nor the new one.
\<close>

theorem save_state_crash_partial:
  "\<not> (state_file (save_state_crash Opened {KStr ''note0.m4a'', KStr ''note1.m4a''} world_saved)
        = state_file world_saved
      \<or> state_file (save_state_crash Opened {KStr ''note0.m4a'', KStr ''note1.m4a''} world_saved)
        = state_file (snd (save_state {KStr ''note0.m4a'', KStr ''note1.m4a''} world_saved)))"
  by (simp add: save_state_crash_def save_state_def py_sorted_def world_saved_def world0_def
        Let_def)

subsection \<open>Errors that leave a sweep\<close>

text \<open>
  C2. An error of the store is not contained. In \<open>world_ro\<close> the first note is
  transcribed and delivered, then \<open>save_state\<close> raises \<^verbatim>\<open>OSError\<close>:
  \<open>process_existing\<close> ends with that error before the second note is looked at, and
  \<open>main\<close> ends with it uncaught, whatever the number of rounds. With a state file that
  can be written, the same sweep processes both notes.
\<close>

theorem store_error_aborts_sweep:
  "process_existing cfg0 {} world_ro =
      (Some OSError, {KStr ''note1.m4a''},
       world_ro\<lparr>trace := [Transcribe ''note1.m4a'',
          Deliver ''buy milk'' (build_metadata ''note1.m4a'' (voice_note 90)
               ''2026-01-01T00:59:50+01:00''
             \<lparr>text_field = ''buy milk'', duration = JNull\<rparr>)]\<rparr>)
   \<and> main cfg0 n world_ro =
      Uncaught OSError {KStr ''note1.m4a''}
       (world_ro\<lparr>trace := [Transcribe ''note1.m4a'',
          Deliver ''buy milk'' (build_metadata ''note1.m4a'' (voice_note 90)
               ''2026-01-01T00:59:50+01:00''
             \<lparr>text_field = ''buy milk'', duration = JNull\<rparr>)]\<rparr>)
   \<and> fst (snd (process_existing cfg0 {} (world_ro\<lparr>state_write_ok := True\<rparr>)))
        = {KStr ''note1.m4a'', KStr ''note2.wav''}"
proof -
  have sweep: "process_existing cfg0 {} world_ro =
      (Some OSError, {KStr ''note1.m4a''},
       world_ro\<lparr>trace := [Transcribe ''note1.m4a'',
          Deliver ''buy milk'' (build_metadata ''note1.m4a'' (voice_note 90)
               ''2026-01-01T00:59:50+01:00''
             \<lparr>text_field = ''buy milk'', duration = JNull\<rparr>)]\<rparr>)"
    by (simp add: sweep_defs eval_defs world_ro_def)
  have ld: "load_state world_ro = Inr {}"
    by (simp add: load_state_def world_ro_def world0_def)
  have cf: "stt_url cfg0 \<noteq> [] \<and> openclaw_url cfg0 \<noteq> [] \<and> openclaw_hook_token cfg0 \<noteq> []"
    by (simp add: cfg0_def)
  have mn: "main cfg0 n world_ro =
      Uncaught OSError {KStr ''note1.m4a''}
       (world_ro\<lparr>trace := [Transcribe ''note1.m4a'',
          Deliver ''buy milk'' (build_metadata ''note1.m4a'' (voice_note 90)
               ''2026-01-01T00:59:50+01:00''
             \<lparr>text_field = ''buy milk'', duration = JNull\<rparr>)]\<rparr>)"
    using cf by (simp add: main_def ld sweep)
  have rw: "fst (snd (process_existing cfg0 {} (world_ro\<lparr>state_write_ok := True\<rparr>)))
        = {KStr ''note1.m4a'', KStr ''note2.wav''}"
    by (simp add: sweep_defs eval_defs world_ro_def insert_commute)
  show ?thesis using sweep mn rw by simp
qed

subsection \<open>Start-up\<close>

lemma main_loop_not_exit: "main_loop cfg n p w \<noteq> SysExit c m v"
proof (induction n arbitrary: p w)
  case 0
  then show ?case by simp
next
  case (Suc n)
  then show ?case
    by (simp split: sum.splits prod.splits option.splits)
qed

text \<open>
  C8. \<open>main\<close> checks the STT URL, the delivery URL and the token, in this order. At
  the first one that is empty it logs the error line that names it and exits with
  status 1, the world untouched. With all three present it does not exit that way: it
  goes on to load the state and sweep the directory.
\<close>

theorem main_requires_config:
  "(stt_url cfg = [] \<longrightarrow> main cfg n w = SysExit 1 ''STT_URL is required'' w)
   \<and> (stt_url cfg \<noteq> [] \<and> openclaw_url cfg = [] \<longrightarrow>
        main cfg n w = SysExit 1 ''OPENCLAW_URL is required'' w)
   \<and> (stt_url cfg \<noteq> [] \<and> openclaw_url cfg \<noteq> [] \<and> openclaw_hook_token cfg = [] \<longrightarrow>
        main cfg n w = SysExit 1 ''OPENCLAW_HOOK_TOKEN is required'' w)
   \<and> (stt_url cfg \<noteq> [] \<and> openclaw_url cfg \<noteq> [] \<and> openclaw_hook_token cfg \<noteq> [] \<longrightarrow>
        (\<forall>c m v. main cfg n w \<noteq> SysExit c m v)
      \<and> main cfg n w =
          (case load_state w of
             Inl err \<Rightarrow> Uncaught err {} w
           | Inr processed \<Rightarrow>
              (case process_existing cfg processed w of
                 (Some err, p', w') \<Rightarrow> Uncaught err p' w'
               | (None, p', w') \<Rightarrow> main_loop cfg n p' w')))"
  by (auto simp add: main_def main_loop_not_exit split: sum.splits prod.splits option.splits)

theorem main_requires_config_witness:
  "main (cfg0\<lparr>stt_url := []\<rparr>) 3 (world0 (HookStatus 202))
      = SysExit 1 ''STT_URL is required'' (world0 (HookStatus 202))
   \<and> main (cfg0\<lparr>openclaw_url := []\<rparr>) 3 (world0 (HookStatus 202))
      = SysExit 1 ''OPENCLAW_URL is required'' (world0 (HookStatus 202))
   \<and> main (cfg0\<lparr>openclaw_hook_token := []\<rparr>) 3 (world0 (HookStatus 202))
      = SysExit 1 ''OPENCLAW_HOOK_TOKEN is required'' (world0 (HookStatus 202))
   \<and> stt_url cfg0 \<noteq> [] \<and> openclaw_url cfg0 \<noteq> [] \<and> openclaw_hook_token cfg0 \<noteq> []
   \<and> (\<forall>c m v. main cfg0 3 (world0 (HookStatus 202)) \<noteq> SysExit c m v)"
proof -
  have c: "stt_url cfg0 \<noteq> [] \<and> openclaw_url cfg0 \<noteq> [] \<and> openclaw_hook_token cfg0 \<noteq> []"
    by (simp add: cfg0_def)
  have 1: "main (cfg0\<lparr>stt_url := []\<rparr>) 3 (world0 (HookStatus 202))
      = SysExit 1 ''STT_URL is required'' (world0 (HookStatus 202))"
    using main_requires_config [of "cfg0\<lparr>stt_url := []\<rparr>" 3 "world0 (HookStatus 202)"]
    by simp
  have 2: "main (cfg0\<lparr>openclaw_url := []\<rparr>) 3 (world0 (HookStatus 202))
      = SysExit 1 ''OPENCLAW_URL is required'' (world0 (HookStatus 202))"
    using c main_requires_config [of "cfg0\<lparr>openclaw_url := []\<rparr>" 3 "world0 (HookStatus 202)"]
    by simp
  have 3: "main (cfg0\<lparr>openclaw_hook_token := []\<rparr>) 3 (world0 (HookStatus 202))
      = SysExit 1 ''OPENCLAW_HOOK_TOKEN is required'' (world0 (HookStatus 202))"
    using c main_requires_config [of "cfg0\<lparr>openclaw_hook_token := []\<rparr>" 3
          "world0 (HookStatus 202)"]
    by simp
  have 4: "\<forall>c m v. main cfg0 3 (world0 (HookStatus 202)) \<noteq> SysExit c m v"
    using c main_requires_config [of cfg0 3 "world0 (HookStatus 202)"] by blast
  show ?thesis
    using c 1 2 3 4 by blast
qed

end
